theory Spec2Isabelle
  imports Complex_Main
begin

section \<open>Regular expressions of the page-range checks\<close>

text \<open>
  The two page-range checks of the client code are regular-expression tests:
  \<^verbatim>\<open>/^\d+(-\d+)?(,\d+(-\d+)?)*$/\<close> in \<^verbatim>\<open>validatePageRange\<close> (web/app.js) and
  \<^verbatim>\<open>/^\d+(-\d+)?(,\s*\d+(-\d+)?)*$/\<close> in \<^verbatim>\<open>printDocument\<close> (static/dashboard.js).
  A string is a list of 8-bit code units; \<^verbatim>\<open>\d\<close> is the ten ASCII digits and \<^verbatim>\<open>\s\<close> the
  white space and line terminators of JavaScript that fit in one such unit (TAB, LF, VT,
  FF, CR, SP, NBSP). Both patterns are anchored at both ends and carry no flags, so
  \<^verbatim>\<open>RegExp.prototype.test\<close> decides whether the whole string belongs to the language of
  the pattern.
\<close>

datatype cclass = Digit | Space | Lit char

fun in_class :: "cclass \<Rightarrow> char \<Rightarrow> bool" where
  "in_class Digit c = (c \<in> set ''0123456789'')"
| "in_class Space c =
     (c \<in> {CHR 0x09, CHR 0x0A, CHR 0x0B, CHR 0x0C, CHR 0x0D, CHR 0x20, CHR 0xA0})"
| "in_class (Lit a) c = (c = a)"

datatype regex =
    Nul
  | Eps
  | Cls cclass
  | Alt regex regex
  | Cat regex regex
  | Opt regex
  | Plus regex
  | Star regex

text \<open>The language of a pattern: what it means for a whole string to match.\<close>

definition conc :: "string set \<Rightarrow> string set \<Rightarrow> string set" where
  "conc A B = {xs @ ys | xs ys. xs \<in> A \<and> ys \<in> B}"

inductive_set star :: "string set \<Rightarrow> string set" for A :: "string set" where
  star_nil: "[] \<in> star A"
| star_app: "xs \<in> A \<Longrightarrow> ys \<in> star A \<Longrightarrow> xs @ ys \<in> star A"

fun lang :: "regex \<Rightarrow> string set" where
  "lang Nul = {}"
| "lang Eps = {[]}"
| "lang (Cls k) = {[c] | c. in_class k c}"
| "lang (Alt r s) = lang r \<union> lang s"
| "lang (Cat r s) = conc (lang r) (lang s)"
| "lang (Opt r) = insert [] (lang r)"
| "lang (Plus r) = conc (lang r) (star (lang r))"
| "lang (Star r) = star (lang r)"

text \<open>
  \<^verbatim>\<open>test\<close> on an anchored pattern, computed by derivatives: the pattern is rewritten
  once per code unit, and the string matches when the pattern left at the end accepts
  the empty string.
\<close>

fun nullable :: "regex \<Rightarrow> bool" where
  "nullable Nul = False"
| "nullable Eps = True"
| "nullable (Cls k) = False"
| "nullable (Alt r s) = (nullable r \<or> nullable s)"
| "nullable (Cat r s) = (nullable r \<and> nullable s)"
| "nullable (Opt r) = True"
| "nullable (Plus r) = nullable r"
| "nullable (Star r) = True"

fun deriv :: "char \<Rightarrow> regex \<Rightarrow> regex" where
  "deriv c Nul = Nul"
| "deriv c Eps = Nul"
| "deriv c (Cls k) = (if in_class k c then Eps else Nul)"
| "deriv c (Alt r s) = Alt (deriv c r) (deriv c s)"
| "deriv c (Cat r s) =
     (if nullable r then Alt (Cat (deriv c r) s) (deriv c s) else Cat (deriv c r) s)"
| "deriv c (Opt r) = deriv c r"
| "deriv c (Plus r) = Cat (deriv c r) (Star r)"
| "deriv c (Star r) = Cat (deriv c r) (Star r)"

fun test :: "regex \<Rightarrow> string \<Rightarrow> bool" where
  "test r [] = nullable r"
| "test r (c # cs) = test (deriv c r) cs"

text \<open>The building blocks shared by the patterns: \<^verbatim>\<open>\d+\<close> and \<^verbatim>\<open>(-\d+)?\<close>.\<close>

definition digits1 :: regex where
  "digits1 = Plus (Cls Digit)"

definition opt_upper :: regex where
  "opt_upper = Opt (Cat (Cls (Lit CHR ''-'')) digits1)"

text \<open>web/app.js, \<^verbatim>\<open>validatePageRange\<close>: \<^verbatim>\<open>/^\d+(-\d+)?(,\d+(-\d+)?)*$/\<close>.\<close>

definition pattern :: regex where
  "pattern =
     Cat digits1 (Cat opt_upper
       (Star (Cat (Cls (Lit CHR '','')) (Cat digits1 opt_upper))))"

text \<open>static/dashboard.js, \<^verbatim>\<open>printDocument\<close>: \<^verbatim>\<open>/^\d+(-\d+)?(,\s*\d+(-\d+)?)*$/\<close>.\<close>

definition pageRangePattern :: regex where
  "pageRangePattern =
     Cat digits1 (Cat opt_upper
       (Star (Cat (Cls (Lit CHR '','')) (Cat (Star (Cls Space)) (Cat digits1 opt_upper)))))"

text \<open>
  The grammar of the specification, section 6, written from its words:
  \<^verbatim>\<open>^\d+(-\d+)?(,\s*\d+(-\d+)?)*$\<close>. A string matches the grammar when it belongs to
  the language of this pattern.
\<close>

definition page_range_grammar :: regex where
  "page_range_grammar =
     Cat (Plus (Cls Digit)) (Cat (Opt (Cat (Cls (Lit CHR ''-'')) (Plus (Cls Digit))))
       (Star (Cat (Cls (Lit CHR '',''))
          (Cat (Star (Cls Space))
             (Cat (Plus (Cls Digit)) (Opt (Cat (Cls (Lit CHR ''-'')) (Plus (Cls Digit)))))))))"

text \<open>\<^verbatim>\<open>pageRange.replace(/\s/g, '')\<close>: every white-space code unit is deleted.\<close>

definition replace_ws :: "string \<Rightarrow> string" where
  "replace_ws s = filter (\<lambda>c. \<not> in_class Space c) s"

text \<open>web/app.js, lines 626-630.\<close>

definition validatePageRange :: "string \<Rightarrow> bool" where
  "validatePageRange pageRange = test pattern (replace_ws pageRange)"

text \<open>
  web/app.js, lines 563-569: the submit handler refuses the submission (result
  \<open>False\<close>) when the range type is \<^verbatim>\<open>'range'\<close>, the range string is not empty and
  \<^verbatim>\<open>validatePageRange\<close> rejects it.
\<close>

definition submit_page_range_ok :: "string \<Rightarrow> string \<Rightarrow> bool" where
  "submit_page_range_ok pageRangeType pageRange =
     (if pageRangeType = ''range'' \<and> pageRange \<noteq> [] then validatePageRange pageRange
      else True)"

text \<open>
  static/dashboard.js, lines 939-946: \<^verbatim>\<open>printDocument\<close> goes on to create the job
  (result \<open>True\<close>) unless \<^verbatim>\<open>settings.page_range\<close> is a non-empty string other than
  \<^verbatim>\<open>'odd'\<close> and \<^verbatim>\<open>'even'\<close> that fails the pattern. \<open>None\<close> is \<^verbatim>\<open>null\<close>.
\<close>

definition page_range_check :: "string option \<Rightarrow> bool" where
  "page_range_check page_range =
     (case page_range of
        None \<Rightarrow> True
      | Some s \<Rightarrow>
          (if s \<noteq> [] \<and> s \<noteq> ''odd'' \<and> s \<noteq> ''even'' then test pageRangePattern s
           else True))"


section \<open>Jobs, the active queue and the history (static/dashboard.js)\<close>

text \<open>
  A job object as \<^verbatim>\<open>printDocument\<close> creates it. Only the fields that the queue, the
  monitor and the cancel operation read or write are kept; the others (name, printer,
  timestamp, settings) are never read by them.
  \<^verbatim>\<open>job.status\<close> takes the five string values the code assigns; \<open>Error\<close> is the
  status \<^verbatim>\<open>'error'\<close>, the failed state of the specification.
\<close>

datatype status = Pending | Printing | Completed | Error | Cancelled

record job =
  job_id :: nat
  fileName :: string
  status :: status
  progress :: rat
  error :: "string option"

text \<open>The terminal states of the specification, section 4.3.\<close>

definition terminal :: "status \<Rightarrow> bool" where
  "terminal s = (s = Completed \<or> s = Error \<or> s = Cancelled)"

text \<open>
  Numbers are doubles. A double is a rational number, and an arithmetic operation
  returns the exact result rounded: the rounding \<open>fl\<close> is a parameter of every
  function that computes. What is used of it is what round-to-nearest of IEEE 754 has:
  it is monotone, it leaves a value it has produced as it is, and it leaves the integers
  up to \<open>2 ^ 53\<close> as they are.
\<close>

definition rounding :: "(rat \<Rightarrow> rat) \<Rightarrow> bool" where
  "rounding fl =
     ((\<forall>x y. x \<le> y \<longrightarrow> fl x \<le> fl y) \<and> (\<forall>x. fl (fl x) = fl x) \<and>
      (\<forall>n::int. \<bar>n\<bar> \<le> 2 ^ 53 \<longrightarrow> fl (of_int n) = of_int n))"

text \<open>
  The answer of \<^verbatim>\<open>/api/printers/<id>/status/detailed\<close>: the device status, an
  optional message and the optional list of queue entries. \<open>NetworkError\<close> is a
  rejected \<^verbatim>\<open>fetch\<close> (the \<^verbatim>\<open>catch\<close> branch), \<open>HttpError\<close> a response that is not
  \<^verbatim>\<open>ok\<close>.
\<close>

record queue_entry =
  document :: "string option"
  pages_printed :: rat
  total_pages :: rat

record printer_status =
  dev_status :: string
  message :: "string option"
  jobs :: "queue_entry list option"

datatype response = NetworkError | HttpError | HttpOk printer_status

text \<open>
  The dashboard. Job objects are shared between the queue array, the closure of the
  monitor and the cancel operation, so they live in a store \<open>objects\<close> indexed by
  reference, and \<open>jobQueue\<close> holds references. \<open>jobHistory\<close> holds copies
  (\<^verbatim>\<open>{...job, completedAt: new Date()}\<close>). \<open>intervals\<close> are the monitors whose
  \<^verbatim>\<open>setInterval\<close> has not been cleared, \<open>timeouts\<close> the pending
  \<^verbatim>\<open>setTimeout(() => removeJobFromQueue(jobId), delay)\<close> calls, \<open>clock\<close> the time that
  \<^verbatim>\<open>new Date()\<close> reads and \<open>allocated\<close> the number of job objects created so far.
  The asynchronous functions are suspended at their \<^verbatim>\<open>await\<close>: \<open>sending\<close> lists the
  jobs whose \<^verbatim>\<open>printDocument\<close> waits for the answer to the print request, \<open>inflight\<close>
  the jobs with a monitor callback that waits for the answer to its status request, one
  entry per waiting callback.
\<close>

record dashboard =
  objects :: "nat \<Rightarrow> job"
  jobQueue :: "nat list"
  jobHistory :: "(job \<times> nat) list"
  jobIdCounter :: nat
  allocated :: nat
  intervals :: "nat set"
  timeouts :: "(nat \<times> nat) list"
  clock :: nat
  sending :: "nat list"
  inflight :: "nat list"

text \<open>\<^verbatim>\<open>String.prototype.includes\<close> and \<^verbatim>\<open>Array.prototype.findIndex\<close>.\<close>

fun includes_str :: "string \<Rightarrow> string \<Rightarrow> bool" where
  "includes_str [] t = (t = [])"
| "includes_str (c # cs) t = (take (length t) (c # cs) = t \<or> includes_str cs t)"

fun findIndex :: "('a \<Rightarrow> bool) \<Rightarrow> 'a list \<Rightarrow> nat option" where
  "findIndex P [] = None"
| "findIndex P (x # xs) = (if P x then Some 0 else map_option Suc (findIndex P xs))"

text \<open>An assignment to fields of the job object behind reference \<open>r\<close>.\<close>

definition update_job :: "nat \<Rightarrow> (job \<Rightarrow> job) \<Rightarrow> dashboard \<Rightarrow> dashboard" where
  "update_job r f d = d\<lparr>objects := (objects d)(r := f (objects d r))\<rparr>"

definition clearInterval :: "nat \<Rightarrow> dashboard \<Rightarrow> dashboard" where
  "clearInterval r d = d\<lparr>intervals := intervals d - {r}\<rparr>"

definition setTimeout_remove :: "nat \<Rightarrow> nat \<Rightarrow> dashboard \<Rightarrow> dashboard" where
  "setTimeout_remove jobId delay d = d\<lparr>timeouts := timeouts d @ [(delay, jobId)]\<rparr>"

text \<open>Lines 1133-1144.\<close>

definition addJobToQueue :: "nat \<Rightarrow> dashboard \<Rightarrow> dashboard" where
  "addJobToQueue r d = d\<lparr>jobQueue := jobQueue d @ [r]\<rparr>"

definition updateJobInQueue :: "nat \<Rightarrow> dashboard \<Rightarrow> dashboard" where
  "updateJobInQueue r d =
     (case findIndex (\<lambda>j. job_id (objects d j) = job_id (objects d r)) (jobQueue d) of
        None \<Rightarrow> d
      | Some index \<Rightarrow> d\<lparr>jobQueue := (jobQueue d)[index := r]\<rparr>)"

text \<open>
  Lines 1298-1310: \<^verbatim>\<open>unshift\<close> of a copy, then \<^verbatim>\<open>slice(0, 20)\<close> when the list is
  longer than 20. The call of \<^verbatim>\<open>saveJobHistory\<close> that follows copies the list to the
  local storage and changes nothing of the dashboard; the local storage is outside the
  state, and what a later session finds there is an input of \<open>loadJobHistory\<close>.
\<close>

definition addJobToHistory :: "nat \<Rightarrow> dashboard \<Rightarrow> dashboard" where
  "addJobToHistory r d =
     (let h = (objects d r, clock d) # jobHistory d
      in d\<lparr>jobHistory := (if length h > 20 then take 20 h else h)\<rparr>)"

text \<open>
  Lines 1350-1360: \<^verbatim>\<open>loadJobHistory\<close> installs the list that
  \<^verbatim>\<open>localStorage.getItem('printJobHistory')\<close> holds, as \<^verbatim>\<open>JSON.parse\<close> returns it.
  \<open>None\<close> is a missing or empty item, or one that does not parse; then the history
  stays as it is.
\<close>

definition loadJobHistory :: "(job \<times> nat) list option \<Rightarrow> dashboard \<Rightarrow> dashboard" where
  "loadJobHistory saved d = (case saved of None \<Rightarrow> d | Some h \<Rightarrow> d\<lparr>jobHistory := h\<rparr>)"

text \<open>Lines 1146-1155: \<^verbatim>\<open>splice(jobIndex, 1)\<close>, then the job goes to the history.\<close>

definition removeJobFromQueue :: "nat \<Rightarrow> dashboard \<Rightarrow> dashboard" where
  "removeJobFromQueue jobId d =
     (case findIndex (\<lambda>j. job_id (objects d j) = jobId) (jobQueue d) of
        None \<Rightarrow> d
      | Some jobIndex \<Rightarrow>
          (let r = jobQueue d ! jobIndex
           in addJobToHistory r
                (d\<lparr>jobQueue :=
                     take jobIndex (jobQueue d) @ drop (Suc jobIndex) (jobQueue d)\<rparr>)))"

text \<open>Lines 1274-1284.\<close>

definition cancelJob :: "nat \<Rightarrow> dashboard \<Rightarrow> dashboard" where
  "cancelJob jobId d =
     (case find (\<lambda>j. job_id (objects d j) = jobId) (jobQueue d) of
        None \<Rightarrow> d
      | Some r \<Rightarrow>
          setTimeout_remove jobId 1000
            (updateJobInQueue r
               (update_job r (\<lambda>j. j\<lparr>status := Cancelled, progress := 0\<rparr>) d)))"

text \<open>Lines 1286-1295 and 1335-1340.\<close>

definition clearQueue :: "dashboard \<Rightarrow> dashboard" where
  "clearQueue d =
     (fold (\<lambda>r d'. addJobToHistory r (update_job r (\<lambda>j. j\<lparr>status := Cancelled\<rparr>) d'))
        (jobQueue d) d)\<lparr>jobQueue := []\<rparr>"

definition clearHistory :: "dashboard \<Rightarrow> dashboard" where
  "clearHistory d = d\<lparr>jobHistory := []\<rparr>"

subsection \<open>The progress monitor, lines 1194-1272\<close>

text \<open>
  Lines 1211-1213: the first queue entry of the printer whose document name is a
  non-empty string that contains the file name of the job.
\<close>

definition currentJob :: "printer_status \<Rightarrow> job \<Rightarrow> queue_entry option" where
  "currentJob printerStatus job =
     (case jobs printerStatus of
        None \<Rightarrow> None
      | Some js \<Rightarrow>
          find (\<lambda>pJob. case document pJob of
                          None \<Rightarrow> False
                        | Some doc \<Rightarrow> doc \<noteq> [] \<and> includes_str doc (fileName job)) js)"

text \<open>Line 1244: the text stored in \<^verbatim>\<open>job.error\<close>.\<close>

definition printer_error_text :: "printer_status \<Rightarrow> string" where
  "printer_error_text printerStatus =
     ''Printer '' @ dev_status printerStatus @ '': '' @
       (case message printerStatus of
          None \<Rightarrow> ''Unknown error''
        | Some m \<Rightarrow> (if m = [] then ''Unknown error'' else m))"

text \<open>
  Lines 1231-1237 and 1262-1267: the job is marked completed, the interval is cleared and
  the removal from the queue is scheduled two seconds later.
\<close>

definition complete_job :: "nat \<Rightarrow> dashboard \<Rightarrow> dashboard" where
  "complete_job r d =
     setTimeout_remove (job_id (objects d r)) 2000
       (clearInterval r (update_job r (\<lambda>j. j\<lparr>progress := 100, status := Completed\<rparr>) d))"

text \<open>Lines 1260-1270, the end of a callback that did not return early.\<close>

definition finish_tick :: "nat \<Rightarrow> dashboard \<Rightarrow> dashboard" where
  "finish_tick r d =
     updateJobInQueue r (if progress (objects d r) \<ge> 100 then complete_job r d else d)"

text \<open>
  Lines 1252 and 1257: \<^verbatim>\<open>job.progress += Math.random() * 10 + 5\<close>, three rounded
  operations; \<open>rnd\<close> is the value of \<^verbatim>\<open>Math.random()\<close>, a double from 0 up to but not
  including 1.
\<close>

definition fallback_estimate :: "(rat \<Rightarrow> rat) \<Rightarrow> rat \<Rightarrow> rat \<Rightarrow> rat" where
  "fallback_estimate fl p rnd = fl (p + fl (fl (rnd * 10) + 5))"

definition fallback_progress :: "(rat \<Rightarrow> rat) \<Rightarrow> nat \<Rightarrow> rat \<Rightarrow> dashboard \<Rightarrow> dashboard" where
  "fallback_progress fl r rnd d =
     update_job r (\<lambda>j. j\<lparr>progress := fallback_estimate fl (progress j) rnd\<rparr>) d"

text \<open>
  The interval callback for the job behind \<open>r\<close> is suspended once, at
  \<^verbatim>\<open>await fetch\<close> (line 1206; nothing is read or written between that and
  \<^verbatim>\<open>await response.json()\<close>). \<open>tick_begin\<close> is the part before the suspension, lines
  1198-1202: the status test, which ends the monitor of a job found cancelled or failed
  and otherwise leaves the callback waiting for the answer.
\<close>

definition tick_begin :: "nat \<Rightarrow> dashboard \<Rightarrow> dashboard" where
  "tick_begin r d =
     (let job = objects d r in
      if status job = Error \<or> status job = Cancelled then
        removeJobFromQueue (job_id job) (clearInterval r d)
      else d\<lparr>inflight := r # inflight d\<rparr>)"

text \<open>
  \<open>tick_resume\<close> is the part after the suspension, lines 1207-1270, given the answer
  to the status request and the random number the callback may draw. It does not test
  the status of the job again.
\<close>

definition tick_resume ::
  "(rat \<Rightarrow> rat) \<Rightarrow> nat \<Rightarrow> response \<Rightarrow> rat \<Rightarrow> dashboard \<Rightarrow> dashboard" where
  "tick_resume fl r resp rnd d =
     (let job = objects d r in
      case resp of
        HttpOk printerStatus \<Rightarrow>
          (let d1 =
             (case currentJob printerStatus job of
                Some cur \<Rightarrow>
                  (if total_pages cur > 0 then
                     update_job r (\<lambda>j. j\<lparr>progress :=
                       min 95 (fl (fl (pages_printed cur / total_pages cur) * 100))\<rparr>) d
                   else
                     update_job r (\<lambda>j. j\<lparr>progress := min 90 (fl (progress j + 10))\<rparr>) d)
              | None \<Rightarrow>
                  (if progress job < 95 then
                     update_job r (\<lambda>j. j\<lparr>progress := min 95 (fl (progress j + 15))\<rparr>) d
                   else complete_job r d))
           in
             if dev_status printerStatus = ''error'' \<or> dev_status printerStatus = ''offline''
             then
               removeJobFromQueue (job_id job)
                 (clearInterval r
                    (update_job r (\<lambda>j. j\<lparr>status := Error,
                       error := Some (printer_error_text printerStatus)\<rparr>) d1))
             else finish_tick r d1)
      | HttpError \<Rightarrow> finish_tick r (fallback_progress fl r rnd d)
      | NetworkError \<Rightarrow> finish_tick r (fallback_progress fl r rnd d))"

text \<open>
  One whole run of the callback, when nothing else happens while it waits for the
  answer.
\<close>

definition monitorJobProgress_tick ::
  "(rat \<Rightarrow> rat) \<Rightarrow> nat \<Rightarrow> response \<Rightarrow> rat \<Rightarrow> dashboard \<Rightarrow> dashboard" where
  "monitorJobProgress_tick fl r resp rnd d =
     (let job = objects d r in
      if status job = Error \<or> status job = Cancelled then
        removeJobFromQueue (job_id job) (clearInterval r d)
      else tick_resume fl r resp rnd d)"

text \<open>Line 1197: \<^verbatim>\<open>monitorJobProgress\<close> itself only installs the interval.\<close>

definition monitorJobProgress :: "nat \<Rightarrow> dashboard \<Rightarrow> dashboard" where
  "monitorJobProgress r d = d\<lparr>intervals := insert r (intervals d)\<rparr>"

subsection \<open>Printing a document, lines 930-1020\<close>

text \<open>
  Lines 948-963: a new job object with the next id enters the queue as pending.
\<close>

definition create_job :: "string \<Rightarrow> dashboard \<Rightarrow> dashboard" where
  "create_job name d =
     (let jobId = jobIdCounter d;
          r = allocated d;
          job = \<lparr>job_id = jobId, fileName = name, status = Pending, progress = 0,
                  error = None\<rparr>
      in addJobToQueue r
           (d\<lparr>jobIdCounter := jobId + 1, allocated := r + 1,
              objects := (objects d)(r := job)\<rparr>))"

text \<open>
  Lines 1003-1016, after the answer to the print request: answered \<^verbatim>\<open>ok\<close>
  (\<open>sent\<close>), the job becomes printing and gets a monitor; otherwise its status is
  \<^verbatim>\<open>'error'\<close> and no monitor is started.
\<close>

definition printDocument_end :: "nat \<Rightarrow> bool \<Rightarrow> dashboard \<Rightarrow> dashboard" where
  "printDocument_end r sent d =
     (if sent
      then monitorJobProgress r
             (updateJobInQueue r (update_job r (\<lambda>j. j\<lparr>status := Printing\<rparr>) d))
      else updateJobInQueue r (update_job r (\<lambda>j. j\<lparr>status := Error\<rparr>) d))"

text \<open>
  \<^verbatim>\<open>printDocument\<close> with a file and a printer selected, up to its suspension at
  \<^verbatim>\<open>await fetch\<close>: when the page-range check fails, a message is shown and nothing else
  happens; otherwise the job is created and the function waits for the answer.
\<close>

definition printDocument_begin :: "string \<Rightarrow> string option \<Rightarrow> dashboard \<Rightarrow> dashboard" where
  "printDocument_begin name page_range d =
     (if \<not> page_range_check page_range then d
      else (create_job name d)\<lparr>sending := allocated d # sending d\<rparr>)"

text \<open>The whole of \<^verbatim>\<open>printDocument\<close>, when nothing else happens while it waits.\<close>

definition printDocument :: "string \<Rightarrow> string option \<Rightarrow> bool \<Rightarrow> dashboard \<Rightarrow> dashboard" where
  "printDocument name page_range sent d =
     (if \<not> page_range_check page_range then d
      else printDocument_end (allocated d) sent (create_job name d))"

subsection \<open>The constructor, lines 614-630\<close>

text \<open>
  The fields as the constructor assigns them; no job object exists yet, and the store
  holds a placeholder everywhere.
\<close>

definition no_job :: job where
  "no_job = \<lparr>job_id = 0, fileName = [], status = Pending, progress = 0, error = None\<rparr>"

definition constructed :: dashboard where
  "constructed =
     \<lparr>objects = (\<lambda>_. no_job), jobQueue = [], jobHistory = [], jobIdCounter = 1,
      allocated = 0, intervals = {}, timeouts = [], clock = 0, sending = [], inflight = []\<rparr>"

text \<open>
  The constructor ends with \<^verbatim>\<open>init()\<close>, which loads the stored history: the initial
  dashboard depends on what the local storage holds.
\<close>

definition init :: "(job \<times> nat) list option \<Rightarrow> dashboard" where
  "init saved = loadJobHistory saved constructed"

subsection \<open>Runs of the dashboard\<close>

text \<open>
  What can happen to a dashboard: \<^verbatim>\<open>printDocument\<close> is called; the answer to a print
  request arrives; the interval of a monitor fires (only while it is installed); the
  answer to a status request arrives at a waiting callback; the user cancels a job; a
  pending timeout fires; the queue or the history is cleared; time passes.
\<close>

datatype event =
    Print string "string option"
  | Sent nat bool
  | Tick nat
  | Response nat response rat
  | Cancel nat
  | Timeout nat nat
  | ClearQueue
  | ClearHistory
  | Elapse nat

fun step :: "(rat \<Rightarrow> rat) \<Rightarrow> event \<Rightarrow> dashboard \<Rightarrow> dashboard" where
  "step fl (Print name page_range) d = printDocument_begin name page_range d"
| "step fl (Sent r sent) d =
     (if r \<in> set (sending d)
      then printDocument_end r sent (d\<lparr>sending := remove1 r (sending d)\<rparr>)
      else d)"
| "step fl (Tick r) d = (if r \<in> intervals d then tick_begin r d else d)"
| "step fl (Response r resp rnd) d =
     (if r \<in> set (inflight d)
      then tick_resume fl r resp rnd (d\<lparr>inflight := remove1 r (inflight d)\<rparr>)
      else d)"
| "step fl (Cancel jobId) d = cancelJob jobId d"
| "step fl (Timeout delay jobId) d =
     (if (delay, jobId) \<in> set (timeouts d)
      then removeJobFromQueue jobId (d\<lparr>timeouts := remove1 (delay, jobId) (timeouts d)\<rparr>)
      else d)"
| "step fl ClearQueue d = clearQueue d"
| "step fl ClearHistory d = clearHistory d"
| "step fl (Elapse n) d = d\<lparr>clock := clock d + n\<rparr>"

fun run :: "(rat \<Rightarrow> rat) \<Rightarrow> event list \<Rightarrow> dashboard \<Rightarrow> dashboard" where
  "run fl [] d = d"
| "run fl (e # es) d = run fl es (step fl e d)"

text \<open>Answers of the status provider used in the examples below.\<close>

definition idle_printer :: printer_status where
  "idle_printer = \<lparr>dev_status = ''ready'', message = None, jobs = Some []\<rparr>"

definition busy_printer :: printer_status where
  "busy_printer =
     \<lparr>dev_status = ''ready'', message = None,
      jobs = Some [\<lparr>document = Some ''a.pdf'', pages_printed = 1, total_pages = 10\<rparr>]\<rparr>"

definition offline_printer :: printer_status where
  "offline_printer = \<lparr>dev_status = ''offline'', message = Some ''no route'', jobs = None\<rparr>"

text \<open>
  Dashboards reached by short runs, used in the examples below. All their numbers are
  integers, so the runs are the same under every rounding; they are computed with the
  rounding that changes nothing.
\<close>

definition printing_job :: dashboard where
  "printing_job = run id [Print ''a.pdf'' None, Sent 0 True] (init None)"

definition failed_job :: dashboard where
  "failed_job = run id [Print ''a.pdf'' None, Sent 0 False] (init None)"

definition idle_tick :: "event list" where
  "idle_tick = [Tick 0, Response 0 (HttpOk idle_printer) 0]"

definition half_done_job :: dashboard where
  "half_done_job = run id (idle_tick @ idle_tick) printing_job"

definition nearly_done_job :: dashboard where
  "nearly_done_job =
     run id (idle_tick @ idle_tick @ idle_tick @ idle_tick @ idle_tick) half_done_job"


text \<open>
  A rounding coarser than that of doubles, to the nearest quarter, used in an example to
  show a sum that reaches 100 by rounding only.
\<close>

definition quarter :: "rat \<Rightarrow> rat" where
  "quarter x = of_int (round (x * 4)) / 4"

text \<open>The job at 90 percent.\<close>

definition ninety_job :: dashboard where
  "ninety_job = run id (idle_tick @ idle_tick @ idle_tick @ idle_tick) half_done_job"


text \<open>
  Two properties of a dashboard that hold after every run from an initial state: the
  progress values are doubles of at most 100, and the job objects created so far carry
  pairwise different ids, below the id counter, with the queue, the intervals and the
  waiting functions referring to created objects only.
\<close>

definition progress_bounded :: "(rat \<Rightarrow> rat) \<Rightarrow> dashboard \<Rightarrow> bool" where
  "progress_bounded fl d =
     (\<forall>r. progress (objects d r) \<le> 100 \<and> fl (progress (objects d r)) = progress (objects d r))"

definition ids_unique :: "dashboard \<Rightarrow> bool" where
  "ids_unique d =
     (set (jobQueue d) \<subseteq> {..<allocated d} \<and> distinct (jobQueue d) \<and>
      intervals d \<subseteq> {..<allocated d} \<and>
      set (sending d) \<subseteq> {..<allocated d} \<and> set (inflight d) \<subseteq> {..<allocated d} \<and>
      (\<forall>r<allocated d. job_id (objects d r) < jobIdCounter d) \<and>
      inj_on (\<lambda>r. job_id (objects d r)) {..<allocated d})"


section \<open>Correctness of the matcher\<close>

text \<open>The left quotient of a language by a code unit, the meaning of a derivative.\<close>

definition lq :: "char \<Rightarrow> string set \<Rightarrow> string set" where
  "lq c A = {s. c # s \<in> A}"



lemma conc_nil_iff: "[] \<in> conc A B \<longleftrightarrow> [] \<in> A \<and> [] \<in> B"
  by (auto simp: conc_def)

lemma conc_empty: "conc {} B = {}"
  by (simp add: conc_def)

lemma concI: "xs \<in> A \<Longrightarrow> ys \<in> B \<Longrightarrow> xs @ ys \<in> conc A B"
  by (auto simp: conc_def)

lemma nullable_iff: "nullable r \<longleftrightarrow> [] \<in> lang r"
  by (induction r) (auto simp: conc_nil_iff intro: star.intros)

lemma lq_basic:
  "lq c {} = {}" "lq c {[]} = {}" "lq c (A \<union> B) = lq c A \<union> lq c B"
  "lq c (insert [] A) = lq c A" "lq c {[x] | x. P x} = (if P c then {[]} else {})"
  by (auto simp: lq_def)

lemma lq_conc: "lq c (conc A B) = conc (lq c A) B \<union> (if [] \<in> A then lq c B else {})"
  unfolding lq_def conc_def
  by (auto simp: Cons_eq_append_conv)

lemma star_cons_split:
  assumes "s \<in> star A" "s = c # t"
  shows "\<exists>u v. t = u @ v \<and> c # u \<in> A \<and> v \<in> star A"
  using assms
proof (induction arbitrary: t rule: star.induct)
  case star_nil
  then show ?case by simp
next
  case (star_app xs ys)
  show ?case
  proof (cases xs)
    case Nil
    with star_app show ?thesis by simp
  next
    case (Cons a as)
    with star_app show ?thesis by auto
  qed
qed

lemma lq_star: "lq c (star A) = conc (lq c A) (star A)"
proof -
  have "t \<in> conc (lq c A) (star A)" if "c # t \<in> star A" for t
    using star_cons_split[OF that refl] by (auto simp: conc_def lq_def)
  moreover have "c # t \<in> star A" if "t \<in> conc (lq c A) (star A)" for t
  proof -
    from that obtain u v where "t = u @ v" "c # u \<in> A" "v \<in> star A"
      by (auto simp: conc_def lq_def)
    then show ?thesis using star_app[of "c # u" A v] by simp
  qed
  ultimately show ?thesis by (auto simp: lq_def)
qed

lemma lang_deriv: "lang (deriv c r) = lq c (lang r)"
  by (induction r) (simp_all add: lq_conc lq_star nullable_iff lq_basic conc_empty Un_commute)

lemma test_iff_lang: "test r s \<longleftrightarrow> s \<in> lang r"
  by (induction s arbitrary: r) (simp_all add: nullable_iff lang_deriv lq_def)


section \<open>White space and the two patterns\<close>


lemma replace_ws_Nil: "replace_ws [] = []"
  by (simp add: replace_ws_def)

lemma replace_ws_append: "replace_ws (xs @ ys) = replace_ws xs @ replace_ws ys"
  by (simp add: replace_ws_def)

lemma replace_ws_idem: "replace_ws (replace_ws s) = replace_ws s"
  by (simp add: replace_ws_def)

lemma replace_ws_digit: "in_class Digit c \<Longrightarrow> replace_ws [c] = [c]"
  by (auto simp: replace_ws_def)

lemma replace_ws_space: "in_class Space c \<Longrightarrow> replace_ws [c] = []"
  by (simp add: replace_ws_def)

lemma replace_ws_hyphen: "replace_ws ''-'' = ''-''"
  by (simp add: replace_ws_def)

lemma replace_ws_comma: "replace_ws '','' = '',''"
  by (simp add: replace_ws_def)

lemma replace_ws_star:
  assumes "s \<in> star A" and "\<And>x. x \<in> A \<Longrightarrow> replace_ws x \<in> A'"
  shows "replace_ws s \<in> star A'"
  using assms
  by (induction rule: star.induct) (auto simp: replace_ws_append replace_ws_Nil intro: star.intros)

lemma star_keep:
  assumes "s \<in> star A" and "\<And>x. x \<in> A \<Longrightarrow> replace_ws x = x"
  shows "replace_ws s = s"
  using assms by (induction rule: star.induct) (auto simp: replace_ws_append replace_ws_Nil)

lemma replace_ws_spaces: "s \<in> star (lang (Cls Space)) \<Longrightarrow> replace_ws s = []"
proof (induction rule: star.induct)
  case star_nil
  show ?case by (rule replace_ws_Nil)
next
  case (star_app xs ys)
  from star_app.hyps(1) obtain c where "xs = [c]" "in_class Space c" by auto
  then have "replace_ws xs = []" by (simp only: replace_ws_space)
  with star_app.IH show ?case by (simp only: replace_ws_append append_Nil)
qed

lemma cls_digit_keep: "x \<in> lang (Cls Digit) \<Longrightarrow> replace_ws x = x"
proof -
  assume "x \<in> lang (Cls Digit)"
  then obtain c where "x = [c]" "in_class Digit c" by auto
  then show ?thesis by (simp add: replace_ws_digit)
qed

lemma digits1_keep: "x \<in> lang digits1 \<Longrightarrow> replace_ws x = x"
proof -
  assume "x \<in> lang digits1"
  then obtain a b where "x = a @ b" "a \<in> lang (Cls Digit)" "b \<in> star (lang (Cls Digit))"
    by (auto simp: digits1_def conc_def)
  then show ?thesis
    using cls_digit_keep star_keep[of b "lang (Cls Digit)"] by (simp add: replace_ws_append)
qed

lemma opt_upper_keep: "x \<in> lang opt_upper \<Longrightarrow> replace_ws x = x"
proof -
  assume "x \<in> lang opt_upper"
  then consider "x = []" | b where "x = ''-'' @ b" "b \<in> lang digits1"
    by (auto simp: opt_upper_def conc_def)
  then show ?thesis
  proof cases
    case 1
    then show ?thesis by (simp add: replace_ws_Nil)
  next
    case 2
    then show ?thesis
      using digits1_keep[of b] replace_ws_hyphen replace_ws_append[of "''-''" b] by simp
  qed
qed

lemma item_strip:
  assumes "x \<in> lang (Cat (Cls (Lit CHR '','')) (Cat (Star (Cls Space)) (Cat digits1 opt_upper)))"
  shows "replace_ws x \<in> lang (Cat (Cls (Lit CHR '','')) (Cat digits1 opt_upper))"
proof -
  from assms obtain w a b where x: "x = '','' @ w @ a @ b"
    and w: "w \<in> star (lang (Cls Space))" and a: "a \<in> lang digits1" and b: "b \<in> lang opt_upper"
    by (auto simp: conc_def)
  have "replace_ws x = '','' @ a @ b"
    unfolding x replace_ws_append replace_ws_comma
    using replace_ws_spaces[OF w] digits1_keep[OF a] opt_upper_keep[OF b] by simp
  moreover have "'','' @ a @ b \<in> lang (Cat (Cls (Lit CHR '','')) (Cat digits1 opt_upper))"
    unfolding lang.simps using a b by (intro concI) simp_all
  ultimately show ?thesis by simp
qed

lemma strip_pageRangePattern:
  assumes "s \<in> lang pageRangePattern"
  shows "replace_ws s \<in> lang pattern"
proof -
  from assms obtain a b c where s: "s = a @ b @ c"
    and a: "a \<in> lang digits1" and b: "b \<in> lang opt_upper"
    and c: "c \<in> star (lang (Cat (Cls (Lit CHR '','')) (Cat (Star (Cls Space)) (Cat digits1 opt_upper))))"
    by (auto simp: pageRangePattern_def conc_def)
  have "replace_ws c \<in> star (lang (Cat (Cls (Lit CHR '','')) (Cat digits1 opt_upper)))"
    using c item_strip by (rule replace_ws_star)
  then have "a @ b @ replace_ws c \<in> lang pattern"
    using a b unfolding pattern_def lang.simps by (intro concI)
  then show ?thesis
    by (simp add: s replace_ws_append digits1_keep[OF a] opt_upper_keep[OF b])
qed

lemma star_mono: "s \<in> star A \<Longrightarrow> A \<subseteq> B \<Longrightarrow> s \<in> star B"
  by (induction rule: star.induct) (auto intro: star.intros)

lemma conc_mono: "A \<subseteq> A' \<Longrightarrow> B \<subseteq> B' \<Longrightarrow> conc A B \<subseteq> conc A' B'"
  by (auto simp: conc_def)

lemma conc_star_left: "X \<subseteq> conc (star S) X"
proof
  fix x assume "x \<in> X"
  then have "[] @ x \<in> conc (star S) X" by (intro concI star_nil)
  then show "x \<in> conc (star S) X" by simp
qed

lemma pattern_sub: "lang pattern \<subseteq> lang pageRangePattern"
proof -
  have "conc A X \<subseteq> conc A (conc (star S) X)" for A X S
    by (rule conc_mono[OF subset_refl conc_star_left])
  then have "star (conc A X) \<subseteq> star (conc A (conc (star S) X))" for A X S
    using star_mono by blast
  then show ?thesis
    unfolding pattern_def pageRangePattern_def lang.simps
    by (intro conc_mono subset_refl)
qed

lemma validate_iff: "validatePageRange s \<longleftrightarrow> replace_ws s \<in> lang pageRangePattern"
  using strip_pageRangePattern[of "replace_ws s"] pattern_sub
  by (auto simp: validatePageRange_def test_iff_lang replace_ws_idem)

lemma digits_star: "list_all (in_class Digit) xs \<Longrightarrow> xs \<in> star (lang (Cls Digit))"
proof (induction xs)
  case Nil
  show ?case by (rule star_nil)
next
  case (Cons y ys)
  then have "[y] \<in> lang (Cls Digit)" "ys \<in> star (lang (Cls Digit))" by simp_all
  then have "[y] @ ys \<in> star (lang (Cls Digit))" by (rule star_app)
  then show ?case by simp
qed

lemma digits_in: "ds \<noteq> [] \<Longrightarrow> list_all (in_class Digit) ds \<Longrightarrow> ds \<in> lang digits1"
proof (cases ds)
  case Nil
  assume "ds \<noteq> []"
  with Nil show ?thesis by simp
next
  case (Cons d ds')
  assume "list_all (in_class Digit) ds"
  with Cons have "[d] \<in> lang (Cls Digit)" "ds' \<in> star (lang (Cls Digit))"
    using digits_star by simp_all
  then have "[d] @ ds' \<in> conc (lang (Cls Digit)) (star (lang (Cls Digit)))"
    by (rule concI)
  with Cons show ?thesis by (simp add: digits1_def)
qed

lemma range_token_in:
  assumes "a \<noteq> []" "list_all (in_class Digit) a" "b \<noteq> []" "list_all (in_class Digit) b"
  shows "a @ ''-'' @ b \<in> lang pattern"
proof -
  have "''-'' @ b \<in> conc (lang (Cls (Lit CHR ''-''))) (lang digits1)"
    using digits_in[OF assms(3,4)] by (intro concI) simp_all
  then have "''-'' @ b \<in> lang opt_upper"
    by (simp add: opt_upper_def)
  then have "a @ (''-'' @ b) @ [] \<in> lang pattern"
    unfolding pattern_def lang.simps using digits_in[OF assms(1,2)]
    by (intro concI star_nil)
  then show ?thesis by simp
qed

lemma digits_keep: "list_all (in_class Digit) a \<Longrightarrow> replace_ws a = a"
  unfolding replace_ws_def by (induction a) auto

lemma replace_ws_hyphen_Cons: "replace_ws (CHR ''-'' # b) = CHR ''-'' # replace_ws b"
  by (simp add: replace_ws_def)

lemma range_token_keep:
  assumes "list_all (in_class Digit) a" "list_all (in_class Digit) b"
  shows "replace_ws (a @ ''-'' @ b) = a @ ''-'' @ b"
  using assms by (simp add: replace_ws_append replace_ws_hyphen_Cons digits_keep)

section \<open>The grammar and the two checks\<close>

lemma grammar_eq: "page_range_grammar = pageRangePattern"
  by (simp add: page_range_grammar_def pageRangePattern_def digits1_def opt_upper_def)

lemma validate_iff_grammar: "validatePageRange s \<longleftrightarrow> replace_ws s \<in> lang page_range_grammar"
  by (simp add: grammar_eq validate_iff)

lemma grammar_imp_validate: "s \<in> lang page_range_grammar \<Longrightarrow> validatePageRange s"
  using strip_pageRangePattern[of s]
  by (simp add: grammar_eq validatePageRange_def test_iff_lang)

lemma printDocument_refused: "\<not> page_range_check p \<Longrightarrow> printDocument name p sent d = d"
  by (simp add: printDocument_def)

section \<open>Rounding\<close>

lemma rounding_mono: "rounding fl \<Longrightarrow> x \<le> y \<Longrightarrow> fl x \<le> fl y"
  unfolding rounding_def by blast

lemma rounding_idem: "rounding fl \<Longrightarrow> fl (fl x) = fl x"
  unfolding rounding_def by blast

lemma rounding_int: "rounding fl \<Longrightarrow> \<bar>n\<bar> \<le> 2 ^ 53 \<Longrightarrow> fl (of_int n) = of_int n"
  unfolding rounding_def by blast

lemma rounding_consts:
  assumes "rounding fl"
  shows "fl 0 = 0" "fl 5 = 5" "fl 10 = 10" "fl 15 = 15" "fl 90 = 90" "fl 95 = 95"
    "fl 100 = 100"
proof -
  have k: "fl (of_int n) = of_int n" if "\<bar>n\<bar> \<le> 100" for n
  proof -
    have "(100::int) \<le> 2 ^ 53" by simp
    with that have "\<bar>n\<bar> \<le> 2 ^ 53" by (rule order_trans)
    then show ?thesis by (rule rounding_int[OF assms])
  qed
  show "fl 0 = 0" using k[of 0] by simp
  show "fl 5 = 5" using k[of 5] by simp
  show "fl 10 = 10" using k[of 10] by simp
  show "fl 15 = 15" using k[of 15] by simp
  show "fl 90 = 90" using k[of 90] by simp
  show "fl 95 = 95" using k[of 95] by simp
  show "fl 100 = 100" using k[of 100] by simp
qed

lemma rounding_id: "rounding id"
  unfolding rounding_def by simp

lemma rounding_min:
  "fl a = a \<Longrightarrow> fl b = b \<Longrightarrow> fl (min a b) = min a b"
  by (simp add: min_def)

text \<open>The estimate added by the fallback lies between 5 and 15.\<close>

lemma fallback_increment:
  assumes "rounding fl" "0 \<le> rnd" "rnd < 1"
  shows "5 \<le> fl (fl (rnd * 10) + 5)" "fl (fl (rnd * 10) + 5) \<le> 15"
proof -
  note m = rounding_mono[OF assms(1)]
  note c = rounding_consts[OF assms(1)]
  have "0 \<le> rnd * 10" using assms(2) by simp
  then have x: "fl 0 \<le> fl (rnd * 10)" by (rule m)
  have "rnd * 10 \<le> 10" using assms(3) by simp
  then have y: "fl (rnd * 10) \<le> fl 10" by (rule m)
  from x y have a: "0 \<le> fl (rnd * 10)" and b: "fl (rnd * 10) \<le> 10" by (simp_all only: c)
  from a have "5 \<le> fl (rnd * 10) + 5" by simp
  then have "fl 5 \<le> fl (fl (rnd * 10) + 5)" by (rule m)
  then show "5 \<le> fl (fl (rnd * 10) + 5)" by (simp only: c)
  from b have "fl (rnd * 10) + 5 \<le> 15" by simp
  then have "fl (fl (rnd * 10) + 5) \<le> fl 15" by (rule m)
  then show "fl (fl (rnd * 10) + 5) \<le> 15" by (simp only: c)
qed

lemma fallback_estimate_bounds:
  assumes "rounding fl" "0 \<le> rnd" "rnd < 1" "fl p = p"
  shows "p \<le> fallback_estimate fl p rnd" "fl (p + 5) \<le> fallback_estimate fl p rnd"
    "fallback_estimate fl p rnd \<le> fl (p + 15)"
proof -
  note m = rounding_mono[OF assms(1)]
  note i = fallback_increment[OF assms(1-3)]
  from i(1) have "p + 5 \<le> p + fl (fl (rnd * 10) + 5)" by simp
  then have "fl (p + 5) \<le> fl (p + fl (fl (rnd * 10) + 5))" by (rule m)
  then show l: "fl (p + 5) \<le> fallback_estimate fl p rnd"
    by (simp only: fallback_estimate_def)
  from i(2) have "p + fl (fl (rnd * 10) + 5) \<le> p + 15" by simp
  then have "fl (p + fl (fl (rnd * 10) + 5)) \<le> fl (p + 15)" by (rule m)
  then show "fallback_estimate fl p rnd \<le> fl (p + 15)"
    by (simp only: fallback_estimate_def)
  have "p \<le> p + 5" by simp
  then have "fl p \<le> fl (p + 5)" by (rule m)
  with l assms(4) show "p \<le> fallback_estimate fl p rnd" by simp
qed

lemma fallback_estimate_lower:
  assumes "rounding fl" "0 \<le> rnd" "fl p = p"
  shows "p \<le> fallback_estimate fl p rnd"
proof -
  note m = rounding_mono[OF assms(1)]
  note c = rounding_consts[OF assms(1)]
  have "0 \<le> rnd * 10" using assms(2) by simp
  then have "fl 0 \<le> fl (rnd * 10)" by (rule m)
  then have "0 \<le> fl (rnd * 10) + 5" by (simp add: c)
  then have "fl 0 \<le> fl (fl (rnd * 10) + 5)" by (rule m)
  then have "p \<le> p + fl (fl (rnd * 10) + 5)" by (simp add: c)
  then have "fl p \<le> fl (p + fl (fl (rnd * 10) + 5))" by (rule m)
  then show ?thesis by (simp add: fallback_estimate_def assms(3))
qed

lemma fallback_estimate_id: "fallback_estimate id p rnd = p + (rnd * 10 + 5)"
  by (simp add: fallback_estimate_def)

section \<open>Effects of the dashboard operations on the store and the intervals\<close>

lemma objects_updateJobInQueue: "objects (updateJobInQueue r d) = objects d"
  by (simp add: updateJobInQueue_def split: option.splits)

lemma objects_addJobToHistory: "objects (addJobToHistory r d) = objects d"
  by (simp add: addJobToHistory_def Let_def)

lemma objects_removeJobFromQueue: "objects (removeJobFromQueue j d) = objects d"
  by (simp add: removeJobFromQueue_def Let_def objects_addJobToHistory split: option.splits)

lemma objects_setTimeout_remove: "objects (setTimeout_remove j t d) = objects d"
  by (simp add: setTimeout_remove_def)

lemma objects_clearInterval: "objects (clearInterval r d) = objects d"
  by (simp add: clearInterval_def)

lemma objects_update_job: "objects (update_job r f d) = (objects d)(r := f (objects d r))"
  by (simp add: update_job_def)

lemma objects_complete_job:
  "objects (complete_job r d) = (objects d)(r := (objects d r)\<lparr>progress := 100, status := Completed\<rparr>)"
  by (simp add: complete_job_def objects_setTimeout_remove objects_clearInterval objects_update_job)

lemma objects_finish_tick:
  "objects (finish_tick r d) =
     (if progress (objects d r) \<ge> 100
      then (objects d)(r := (objects d r)\<lparr>progress := 100, status := Completed\<rparr>)
      else objects d)"
  by (simp add: finish_tick_def objects_updateJobInQueue objects_complete_job)

lemma objects_monitorJobProgress: "objects (monitorJobProgress r d) = objects d"
  by (simp add: monitorJobProgress_def)

lemma objects_addJobToQueue: "objects (addJobToQueue r d) = objects d"
  by (simp add: addJobToQueue_def)

lemma objects_tick_begin: "objects (tick_begin r d) = objects d"
  by (simp add: tick_begin_def Let_def objects_removeJobFromQueue objects_clearInterval)

lemmas objs = objects_updateJobInQueue objects_addJobToHistory objects_removeJobFromQueue
  objects_setTimeout_remove objects_clearInterval objects_update_job objects_complete_job
  objects_finish_tick objects_monitorJobProgress objects_addJobToQueue objects_tick_begin

lemma intervals_updateJobInQueue: "intervals (updateJobInQueue r d) = intervals d"
  by (simp add: updateJobInQueue_def split: option.splits)

lemma intervals_addJobToHistory: "intervals (addJobToHistory r d) = intervals d"
  by (simp add: addJobToHistory_def Let_def)

lemma intervals_removeJobFromQueue: "intervals (removeJobFromQueue j d) = intervals d"
  by (simp add: removeJobFromQueue_def Let_def intervals_addJobToHistory split: option.splits)

lemma intervals_setTimeout_remove: "intervals (setTimeout_remove j t d) = intervals d"
  by (simp add: setTimeout_remove_def)

lemma intervals_clearInterval: "intervals (clearInterval r d) = intervals d - {r}"
  by (simp add: clearInterval_def)

lemma intervals_update_job: "intervals (update_job r f d) = intervals d"
  by (simp add: update_job_def)

lemma intervals_complete_job: "intervals (complete_job r d) = intervals d - {r}"
  by (simp add: complete_job_def intervals_setTimeout_remove intervals_clearInterval
      intervals_update_job)

lemma intervals_finish_tick:
  "intervals (finish_tick r d) =
     (if progress (objects d r) \<ge> 100 then intervals d - {r} else intervals d)"
  by (simp add: finish_tick_def intervals_updateJobInQueue intervals_complete_job)

lemma intervals_fallback_progress: "intervals (fallback_progress fl r rnd d) = intervals d"
  by (simp add: fallback_progress_def intervals_update_job)

lemmas ints = intervals_updateJobInQueue intervals_addJobToHistory intervals_removeJobFromQueue
  intervals_setTimeout_remove intervals_clearInterval intervals_update_job
  intervals_complete_job intervals_finish_tick intervals_fallback_progress

lemma allocated_simps:
  "allocated (update_job r f d) = allocated d"
  "allocated (clearInterval r d) = allocated d"
  "allocated (setTimeout_remove j t d) = allocated d"
  "allocated (complete_job r d) = allocated d"
  "allocated (fallback_progress fl r rnd d) = allocated d"
  "allocated (updateJobInQueue r d) = allocated d"
  "allocated (addJobToHistory r d) = allocated d"
  "allocated (removeJobFromQueue j d) = allocated d"
  "allocated (finish_tick r d) = allocated d"
  "allocated (monitorJobProgress r d) = allocated d"
  by (simp_all add: update_job_def clearInterval_def setTimeout_remove_def complete_job_def
      fallback_progress_def updateJobInQueue_def addJobToHistory_def removeJobFromQueue_def
      finish_tick_def monitorJobProgress_def Let_def split: option.splits)

lemma cancelJob_found:
  assumes "find (\<lambda>j. job_id (objects d j) = jobId) (jobQueue d) = Some r"
  shows "objects (cancelJob jobId d) = (objects d)(r := (objects d r)\<lparr>status := Cancelled, progress := 0\<rparr>)"
  using assms by (simp add: cancelJob_def objs)

lemma cancelJob_absent:
  assumes "find (\<lambda>j. job_id (objects d j) = jobId) (jobQueue d) = None"
  shows "cancelJob jobId d = d"
  using assms by (simp add: cancelJob_def)

lemma find_distinct:
  "distinct (map f xs) \<Longrightarrow> x \<in> set xs \<Longrightarrow> find (\<lambda>y. f y = f x) xs = Some x"
  by (induction xs) (auto simp: image_iff)

text \<open>The part of the callback after the suspension, branch by branch.\<close>

lemma resume_fallback:
  assumes "resp = NetworkError \<or> resp = HttpError"
  shows "objects (tick_resume fl r resp rnd d) r =
           (if fallback_estimate fl (progress (objects d r)) rnd \<ge> 100
            then (objects d r)\<lparr>progress := 100, status := Completed\<rparr>
            else (objects d r)\<lparr>progress := fallback_estimate fl (progress (objects d r)) rnd\<rparr>)"
    and "intervals (tick_resume fl r resp rnd d) =
           (if fallback_estimate fl (progress (objects d r)) rnd \<ge> 100
            then intervals d - {r} else intervals d)"
  using assms by (auto simp: tick_resume_def Let_def fallback_progress_def objs ints)


lemma tick_passes:
  "status (objects d r) \<noteq> Error \<Longrightarrow> status (objects d r) \<noteq> Cancelled \<Longrightarrow>
   monitorJobProgress_tick fl r resp rnd d = tick_resume fl r resp rnd d"
  by (simp add: monitorJobProgress_tick_def)

section \<open>The history\<close>











section \<open>The example dashboards\<close>

lemmas run_defs = init_def loadJobHistory_def constructed_def
  idle_printer_def busy_printer_def offline_printer_def idle_tick_def
  printDocument_begin_def printDocument_end_def create_job_def
  Let_def addJobToQueue_def update_job_def updateJobInQueue_def
  monitorJobProgress_def tick_begin_def tick_resume_def currentJob_def finish_tick_def
  complete_job_def clearInterval_def setTimeout_remove_def removeJobFromQueue_def
  addJobToHistory_def cancelJob_def fallback_progress_def fallback_estimate_def
  page_range_check_def printer_error_text_def

lemma printing_job_eq:
  "printing_job =
     \<lparr>objects = (\<lambda>_. no_job)(0 := \<lparr>job_id = 1, fileName = ''a.pdf'', status = Printing,
         progress = 0, error = None\<rparr>),
      jobQueue = [0], jobHistory = [], jobIdCounter = 2, allocated = 1, intervals = {0},
      timeouts = [], clock = 0, sending = [], inflight = []\<rparr>"
  by (simp add: printing_job_def run_defs)

lemma failed_job_eq:
  "failed_job =
     \<lparr>objects = (\<lambda>_. no_job)(0 := \<lparr>job_id = 1, fileName = ''a.pdf'', status = Error,
         progress = 0, error = None\<rparr>),
      jobQueue = [0], jobHistory = [], jobIdCounter = 2, allocated = 1, intervals = {},
      timeouts = [], clock = 0, sending = [], inflight = []\<rparr>"
  by (simp add: failed_job_def run_defs)

lemma half_done_job_eq:
  "half_done_job =
     \<lparr>objects = (\<lambda>_. no_job)(0 := \<lparr>job_id = 1, fileName = ''a.pdf'', status = Printing,
         progress = 30, error = None\<rparr>),
      jobQueue = [0], jobHistory = [], jobIdCounter = 2, allocated = 1, intervals = {0},
      timeouts = [], clock = 0, sending = [], inflight = []\<rparr>"
  by (simp add: half_done_job_def printing_job_eq run_defs)

lemma nearly_done_job_eq:
  "nearly_done_job =
     \<lparr>objects = (\<lambda>_. no_job)(0 := \<lparr>job_id = 1, fileName = ''a.pdf'', status = Printing,
         progress = 95, error = None\<rparr>),
      jobQueue = [0], jobHistory = [], jobIdCounter = 2, allocated = 1, intervals = {0},
      timeouts = [], clock = 0, sending = [], inflight = []\<rparr>"
  by (simp add: nearly_done_job_def half_done_job_eq run_defs)


lemma run_append: "run fl (es @ fs) d = run fl fs (run fl es d)"
  by (induction es arbitrary: d) simp_all

lemma half_done_job_run:
  "half_done_job
     = run id [Print ''a.pdf'' None, Sent 0 True, Tick 0, Response 0 (HttpOk idle_printer) 0,
               Tick 0, Response 0 (HttpOk idle_printer) 0] (init None)"
  by (simp add: half_done_job_def printing_job_def idle_tick_def)

section \<open>Properties of every reachable dashboard\<close>

lemma pb_update:
  assumes "progress_bounded fl d" "progress (f (objects d r)) \<le> 100"
    "fl (progress (f (objects d r))) = progress (f (objects d r))"
  shows "progress_bounded fl (d\<lparr>objects := (objects d)(r := f (objects d r))\<rparr>)"
  using assms by (simp add: progress_bounded_def)

lemma pb_objects: "objects d' = objects d \<Longrightarrow> progress_bounded fl d \<Longrightarrow> progress_bounded fl d'"
  by (simp add: progress_bounded_def)

lemma pb_set_progress:
  assumes "progress_bounded fl d" "v \<le> 100" "fl v = v"
  shows "progress_bounded fl (update_job r (\<lambda>j. j\<lparr>progress := v\<rparr>) d)"
  using assms by (simp add: progress_bounded_def update_job_def)

lemma pb_set_status:
  assumes "progress_bounded fl d"
  shows "progress_bounded fl (update_job r (\<lambda>j. j\<lparr>status := s\<rparr>) d)"
    "progress_bounded fl (update_job r (\<lambda>j. j\<lparr>status := s, error := e\<rparr>) d)"
  using assms by (simp_all add: progress_bounded_def update_job_def)

lemma pb_complete_job:
  assumes "rounding fl" "progress_bounded fl d"
  shows "progress_bounded fl (complete_job r d)"
  using assms(2) rounding_consts(7)[OF assms(1)]
  by (simp add: progress_bounded_def objects_complete_job)

lemma pb_finish_tick:
  assumes "rounding fl" "\<forall>x. x \<noteq> r \<longrightarrow>
      progress (objects d x) \<le> 100 \<and> fl (progress (objects d x)) = progress (objects d x)"
    "fl (progress (objects d r)) = progress (objects d r)"
  shows "progress_bounded fl (finish_tick r d)"
  using assms(2,3) rounding_consts(7)[OF assms(1)]
  by (auto simp: progress_bounded_def objects_finish_tick) (metis linear)

lemma pb_capped:
  assumes "rounding fl"
  shows "fl (min 95 (fl x)) = min 95 (fl x)" "fl (min 90 (fl x)) = min 90 (fl x)"
  using rounding_consts[OF assms] rounding_idem[OF assms, of x]
  by (simp_all add: rounding_min)

lemma pb_resume:
  assumes "rounding fl" "progress_bounded fl d"
  shows "progress_bounded fl (tick_resume fl r resp rnd d)"
proof (cases resp)
  case (HttpOk ps)
  let ?d1 = "(case currentJob ps (objects d r) of
                Some cur \<Rightarrow>
                  (if total_pages cur > 0 then
                     update_job r (\<lambda>j. j\<lparr>progress :=
                       min 95 (fl (fl (pages_printed cur / total_pages cur) * 100))\<rparr>) d
                   else
                     update_job r (\<lambda>j. j\<lparr>progress := min 90 (fl (progress j + 10))\<rparr>) d)
              | None \<Rightarrow>
                  (if progress (objects d r) < 95 then
                     update_job r (\<lambda>j. j\<lparr>progress := min 95 (fl (progress j + 15))\<rparr>) d
                   else complete_job r d))"
  have d1: "progress_bounded fl ?d1"
    using assms(2) pb_capped[OF assms(1)] pb_complete_job[OF assms]
    by (auto simp: progress_bounded_def update_job_def split: option.splits)
  have "progress_bounded fl (finish_tick r ?d1)"
    using d1 by (intro pb_finish_tick[OF assms(1)]) (simp_all add: progress_bounded_def)
  moreover have "progress_bounded fl (removeJobFromQueue j (clearInterval r
      (update_job r (\<lambda>j. j\<lparr>status := Error, error := e\<rparr>) ?d1)))" for j e
    using pb_set_status(2)[OF d1, where r = r and s = Error and e = e]
    by (simp add: progress_bounded_def objects_removeJobFromQueue objects_clearInterval)
  ultimately show ?thesis using HttpOk by (simp add: tick_resume_def Let_def)
next
  case NetworkError
  have "progress_bounded fl (finish_tick r (fallback_progress fl r rnd d))"
    using assms(2) rounding_idem[OF assms(1)]
    by (intro pb_finish_tick[OF assms(1)])
       (simp_all add: progress_bounded_def fallback_progress_def fallback_estimate_def
          update_job_def)
  then show ?thesis using NetworkError by (simp add: tick_resume_def)
next
  case HttpError
  have "progress_bounded fl (finish_tick r (fallback_progress fl r rnd d))"
    using assms(2) rounding_idem[OF assms(1)]
    by (intro pb_finish_tick[OF assms(1)])
       (simp_all add: progress_bounded_def fallback_progress_def fallback_estimate_def
          update_job_def)
  then show ?thesis using HttpError by (simp add: tick_resume_def)
qed

lemma pb_cancel:
  assumes "rounding fl" "progress_bounded fl d"
  shows "progress_bounded fl (cancelJob j d)"
  using assms(2) rounding_consts(1)[OF assms(1)]
  by (auto simp: progress_bounded_def cancelJob_def objs split: option.splits)

lemma objects_fold_clear:
  "progress (objects (fold (\<lambda>r d'. addJobToHistory r
      (update_job r (\<lambda>j. j\<lparr>status := Cancelled\<rparr>) d')) q d) x) = progress (objects d x)"
  by (induction q arbitrary: d) (simp_all add: objs)

lemma pb_clearQueue: "progress_bounded fl d \<Longrightarrow> progress_bounded fl (clearQueue d)"
  unfolding progress_bounded_def by (simp add: clearQueue_def objects_fold_clear)

lemma pb_begin:
  assumes "rounding fl" "progress_bounded fl d"
  shows "progress_bounded fl (printDocument_begin n p d)"
  using assms(2) rounding_consts(1)[OF assms(1)]
  by (auto simp: progress_bounded_def printDocument_begin_def create_job_def Let_def objs)

lemma pb_end: "progress_bounded fl d \<Longrightarrow> progress_bounded fl (printDocument_end r s d)"
  by (auto simp: progress_bounded_def printDocument_end_def objs)

lemma pb_step:
  assumes "rounding fl" "progress_bounded fl d"
  shows "progress_bounded fl (step fl e d)"
proof (cases e)
  case (Print n p)
  then show ?thesis using pb_begin[OF assms] by simp
next
  case (Sent r s)
  have "progress_bounded fl (d\<lparr>sending := remove1 r (sending d)\<rparr>)"
    using assms(2) by (simp add: progress_bounded_def)
  then show ?thesis using Sent assms(2) by (simp add: pb_end)
next
  case (Tick r)
  then show ?thesis using assms(2) by (simp add: progress_bounded_def objects_tick_begin)
next
  case (Response r resp rnd)
  have "progress_bounded fl (d\<lparr>inflight := remove1 r (inflight d)\<rparr>)"
    using assms(2) by (simp add: progress_bounded_def)
  then show ?thesis using Response assms by (simp add: pb_resume)
next
  case (Cancel j)
  then show ?thesis using pb_cancel[OF assms] by simp
next
  case (Timeout t j)
  then show ?thesis using assms(2) by (auto simp: progress_bounded_def objs)
next
  case ClearQueue
  then show ?thesis using assms(2) by (simp add: pb_clearQueue)
next
  case ClearHistory
  then show ?thesis using assms(2) by (simp add: progress_bounded_def clearHistory_def)
next
  case (Elapse n)
  then show ?thesis using assms(2) by (simp add: progress_bounded_def)
qed

lemma pb_run:
  "rounding fl \<Longrightarrow> progress_bounded fl d \<Longrightarrow> progress_bounded fl (run fl es d)"
  by (induction es arbitrary: d) (simp_all add: pb_step)

lemma pb_init: "rounding fl \<Longrightarrow> progress_bounded fl (init saved)"
  using rounding_consts(1)[of fl]
  by (simp add: progress_bounded_def init_def loadJobHistory_def constructed_def no_job_def
      split: option.splits)

lemma reachable_progress:
  assumes "rounding fl"
  shows "progress (objects (run fl es (init saved)) r) \<le> 100"
    and "fl (progress (objects (run fl es (init saved)) r))
           = progress (objects (run fl es (init saved)) r)"
  using pb_run[OF assms pb_init[OF assms], of es saved] by (simp_all add: progress_bounded_def)

lemma findIndex_Some:
  "findIndex P xs = Some i \<Longrightarrow> i < length xs \<and> P (xs ! i)"
proof (induction xs arbitrary: i)
  case Nil
  then show ?case by simp
next
  case (Cons x xs)
  then show ?case by (cases "P x") (auto)
qed

lemma iu_updateJobInQueue:
  assumes "ids_unique d" "r < allocated d"
  shows "updateJobInQueue r d = d"
proof (cases "findIndex (\<lambda>j. job_id (objects d j) = job_id (objects d r)) (jobQueue d)")
  case None
  then show ?thesis by (simp add: updateJobInQueue_def)
next
  case (Some i)
  from findIndex_Some[OF Some] have i: "i < length (jobQueue d)"
    and e: "job_id (objects d (jobQueue d ! i)) = job_id (objects d r)" by simp_all
  from i have "jobQueue d ! i \<in> set (jobQueue d)" by (rule nth_mem)
  with assms(1) have "jobQueue d ! i < allocated d"
    by (auto simp: ids_unique_def)
  with e assms have "jobQueue d ! i = r"
    by (auto simp: ids_unique_def inj_on_def)
  then have "(jobQueue d)[i := r] = jobQueue d" by (metis list_update_id)
  with Some show ?thesis by (simp add: updateJobInQueue_def)
qed


lemma iu_update_job:
  assumes "ids_unique d" "\<And>j. job_id (f j) = job_id j"
  shows "ids_unique (update_job r f d)"
proof -
  have "job_id (objects (update_job r f d) x) = job_id (objects d x)" for x
    by (simp add: update_job_def assms(2))
  moreover have "jobQueue (update_job r f d) = jobQueue d"
    "allocated (update_job r f d) = allocated d"
    "intervals (update_job r f d) = intervals d"
    "jobIdCounter (update_job r f d) = jobIdCounter d"
    "sending (update_job r f d) = sending d"
    "inflight (update_job r f d) = inflight d"
    by (simp_all add: update_job_def)
  ultimately show ?thesis using assms(1) by (simp add: ids_unique_def)
qed

lemma iu_clearInterval: "ids_unique d \<Longrightarrow> ids_unique (clearInterval r d)"
  by (auto simp: ids_unique_def clearInterval_def)

lemma iu_setTimeout_remove: "ids_unique d \<Longrightarrow> ids_unique (setTimeout_remove j t d)"
  by (auto simp: ids_unique_def setTimeout_remove_def)

lemma iu_addJobToHistory: "ids_unique d \<Longrightarrow> ids_unique (addJobToHistory r d)"
  by (auto simp: ids_unique_def addJobToHistory_def Let_def)

lemma distinct_remove_nth: "distinct xs \<Longrightarrow> distinct (take i xs @ drop (Suc i) xs)"
proof -
  assume d: "distinct xs"
  have "xs = take i xs @ drop i xs" by simp
  with d have "distinct (take i xs @ drop i xs)" by simp
  then have "set (take i xs) \<inter> set (drop i xs) = {}" by (simp only: distinct_append)
  moreover have "set (drop (Suc i) xs) \<subseteq> set (drop i xs)"
    by (rule set_drop_subset_set_drop) simp
  ultimately have "set (take i xs) \<inter> set (drop (Suc i) xs) = {}" by blast
  with d show ?thesis by simp
qed

lemma set_remove_nth: "set (take i xs @ drop (Suc i) xs) \<subseteq> set xs"
  by (auto dest: in_set_takeD in_set_dropD)

lemma iu_removeJobFromQueue: "ids_unique d \<Longrightarrow> ids_unique (removeJobFromQueue j d)"
proof (cases "findIndex (\<lambda>r. job_id (objects d r) = j) (jobQueue d)")
  case None
  assume "ids_unique d"
  with None show ?thesis by (simp add: removeJobFromQueue_def)
next
  case (Some i)
  assume u: "ids_unique d"
  let ?d = "d\<lparr>jobQueue := take i (jobQueue d) @ drop (Suc i) (jobQueue d)\<rparr>"
  have "ids_unique ?d"
    using u distinct_remove_nth[of "jobQueue d" i] set_remove_nth[of i "jobQueue d"]
    by (auto simp: ids_unique_def)
  then show ?thesis using Some
    by (simp add: removeJobFromQueue_def Let_def iu_addJobToHistory)
qed

lemma iu_complete_job: "ids_unique d \<Longrightarrow> ids_unique (complete_job r d)"
  by (simp add: complete_job_def iu_setTimeout_remove iu_clearInterval iu_update_job)

lemma iu_finish_tick:
  "ids_unique d \<Longrightarrow> r < allocated d \<Longrightarrow> ids_unique (finish_tick r d)"
  by (simp add: finish_tick_def iu_updateJobInQueue iu_complete_job allocated_simps)

lemma iu_fallback_progress: "ids_unique d \<Longrightarrow> ids_unique (fallback_progress fl r rnd d)"
  by (simp add: fallback_progress_def iu_update_job)


lemma iu_resume:
  assumes "ids_unique d" "r < allocated d"
  shows "ids_unique (tick_resume fl r resp rnd d)"
  using assms
  by (cases resp)
     (auto simp: tick_resume_def Let_def allocated_simps
           intro!: iu_removeJobFromQueue iu_clearInterval iu_update_job iu_finish_tick
             iu_fallback_progress iu_complete_job
           split: option.splits)

lemma iu_begin:
  assumes "ids_unique d" "r < allocated d"
  shows "ids_unique (tick_begin r d)"
proof (cases "status (objects d r) = Error \<or> status (objects d r) = Cancelled")
  case True
  then show ?thesis using assms(1)
    by (simp add: tick_begin_def iu_removeJobFromQueue iu_clearInterval)
next
  case False
  then show ?thesis using assms by (simp add: tick_begin_def ids_unique_def)
qed

lemma find_Some_mem: "find P xs = Some x \<Longrightarrow> x \<in> set xs"
  by (induction xs) (auto split: if_splits)

lemma iu_cancelJob: "ids_unique d \<Longrightarrow> ids_unique (cancelJob j d)"
proof (cases "find (\<lambda>r. job_id (objects d r) = j) (jobQueue d)")
  case None
  assume "ids_unique d"
  with None show ?thesis by (simp add: cancelJob_def)
next
  case (Some r)
  assume u: "ids_unique d"
  from find_Some_mem[OF Some] u have a: "r < allocated d" by (auto simp: ids_unique_def)
  have "ids_unique (update_job r (\<lambda>j. j\<lparr>status := Cancelled, progress := 0\<rparr>) d)"
    using u by (intro iu_update_job) simp_all
  then show ?thesis using Some a
    by (simp add: cancelJob_def iu_setTimeout_remove iu_updateJobInQueue allocated_simps)
qed

lemma iu_fold_clear:
  "ids_unique d \<Longrightarrow>
   ids_unique (fold (\<lambda>r d'. addJobToHistory r
      (update_job r (\<lambda>j. j\<lparr>status := Cancelled\<rparr>) d')) q d)"
  by (induction q arbitrary: d) (simp_all add: iu_addJobToHistory iu_update_job)

lemma iu_clearQueue: "ids_unique d \<Longrightarrow> ids_unique (clearQueue d)"
  using iu_fold_clear[of d "jobQueue d"] by (auto simp: clearQueue_def ids_unique_def)


lemma iu_create:
  assumes "ids_unique d"
  shows "ids_unique (create_job n d)" "allocated (create_job n d) = allocated d + 1"
  using assms
  by (auto simp: create_job_def Let_def ids_unique_def addJobToQueue_def less_Suc_eq
      inj_on_def dest: less_imp_neq)

lemma iu_print_begin: "ids_unique d \<Longrightarrow> ids_unique (printDocument_begin n p d)"
proof (cases "page_range_check p")
  case False
  assume "ids_unique d"
  with False show ?thesis by (simp add: printDocument_begin_def)
next
  case True
  assume "ids_unique d"
  from iu_create[OF this, of n]
  have "ids_unique ((create_job n d)\<lparr>sending := allocated d # sending d\<rparr>)"
    by (auto simp: ids_unique_def create_job_def Let_def addJobToQueue_def)
  with True show ?thesis by (simp add: printDocument_begin_def)
qed

lemma iu_print_end:
  assumes "ids_unique d" "r < allocated d"
  shows "ids_unique (printDocument_end r s d)"
proof -
  have u: "ids_unique (updateJobInQueue r (update_job r (\<lambda>j. j\<lparr>status := st\<rparr>) d))" for st
    using iu_update_job[OF assms(1), of "\<lambda>j. j\<lparr>status := st\<rparr>" r] assms(2)
    by (simp add: iu_updateJobInQueue allocated_simps)
  have "ids_unique (monitorJobProgress r d')" if "ids_unique d'" "r < allocated d'" for d'
    using that by (auto simp: ids_unique_def monitorJobProgress_def)
  with u assms(2) show ?thesis
    by (simp add: printDocument_end_def allocated_simps)
qed

lemma iu_step: "ids_unique d \<Longrightarrow> ids_unique (step fl e d)"
proof (cases e)
  case (Print n p)
  assume "ids_unique d"
  then show ?thesis using Print by (simp add: iu_print_begin)
next
  case (Sent r s)
  assume u: "ids_unique d"
  show ?thesis
  proof (cases "r \<in> set (sending d)")
    case True
    with u have a: "r < allocated d" by (auto simp: ids_unique_def)
    have "ids_unique (d\<lparr>sending := remove1 r (sending d)\<rparr>)"
      using u set_remove1_subset[of r "sending d"] by (auto simp: ids_unique_def)
    then show ?thesis using Sent True a by (simp add: iu_print_end)
  next
    case False
    then show ?thesis using Sent u by simp
  qed
next
  case (Tick r)
  assume u: "ids_unique d"
  show ?thesis
  proof (cases "r \<in> intervals d")
    case True
    with u have "r < allocated d" by (auto simp: ids_unique_def)
    then show ?thesis using Tick True u by (simp add: iu_begin)
  next
    case False
    then show ?thesis using Tick u by simp
  qed
next
  case (Response r resp rnd)
  assume u: "ids_unique d"
  show ?thesis
  proof (cases "r \<in> set (inflight d)")
    case True
    with u have a: "r < allocated d" by (auto simp: ids_unique_def)
    have "ids_unique (d\<lparr>inflight := remove1 r (inflight d)\<rparr>)"
      using u set_remove1_subset[of r "inflight d"] by (auto simp: ids_unique_def)
    then show ?thesis using Response True a by (simp add: iu_resume)
  next
    case False
    then show ?thesis using Response u by simp
  qed
next
  case (Cancel j)
  assume "ids_unique d"
  then show ?thesis using Cancel by (simp add: iu_cancelJob)
next
  case (Timeout t j)
  assume "ids_unique d"
  then have "ids_unique (d\<lparr>timeouts := remove1 (t, j) (timeouts d)\<rparr>)"
    by (simp add: ids_unique_def)
  then show ?thesis using Timeout \<open>ids_unique d\<close> by (simp add: iu_removeJobFromQueue)
next
  case ClearQueue
  assume "ids_unique d"
  then show ?thesis using ClearQueue by (simp add: iu_clearQueue)
next
  case ClearHistory
  assume "ids_unique d"
  then show ?thesis using ClearHistory by (simp add: ids_unique_def clearHistory_def)
next
  case (Elapse n)
  assume "ids_unique d"
  then show ?thesis using Elapse by (simp add: ids_unique_def)
qed

lemma iu_run: "ids_unique d \<Longrightarrow> ids_unique (run fl es d)"
  by (induction es arbitrary: d) (simp_all add: iu_step)

lemma iu_init: "ids_unique (init saved)"
  by (simp add: ids_unique_def init_def loadJobHistory_def constructed_def
      split: option.splits)

lemma iu_distinct:
  "ids_unique d \<Longrightarrow> distinct (map (\<lambda>j. job_id (objects d j)) (jobQueue d))"
  unfolding ids_unique_def distinct_map by (auto intro: inj_on_subset)

lemma reachable_ids_distinct:
  "distinct (map (\<lambda>j. job_id (objects (run fl es (init saved)) j))
     (jobQueue (run fl es (init saved))))"
  by (rule iu_distinct[OF iu_run[OF iu_init]])

section \<open>After the interval of a job is cleared\<close>













section \<open>A coarse rounding\<close>

lemma rounding_quarter: "rounding quarter"
  unfolding rounding_def
proof (intro conjI allI impI)
  fix x y :: rat assume "x \<le> y"
  then have "round (x * 4) \<le> round (y * 4)" by (intro round_mono) simp
  then show "quarter x \<le> quarter y" by (simp add: quarter_def divide_right_mono)
next
  fix x :: rat
  show "quarter (quarter x) = quarter x" by (simp add: quarter_def)
next
  fix n :: int
  have "round (rat_of_int n * 4) = n * 4"
    using round_of_int[of "n * 4", where 'a = rat] by simp
  then show "quarter (of_int n) = of_int n" by (simp add: quarter_def)
qed

lemma quarter_estimate: "fallback_estimate quarter 90 (49/100) = 100"
  by code_simp

lemma ninety_job_eq:
  "ninety_job =
     \<lparr>objects = (\<lambda>_. no_job)(0 := \<lparr>job_id = 1, fileName = ''a.pdf'', status = Printing,
         progress = 90, error = None\<rparr>),
      jobQueue = [0], jobHistory = [], jobIdCounter = 2, allocated = 1, intervals = {0},
      timeouts = [], clock = 0, sending = [], inflight = []\<rparr>"
  by (simp add: ninety_job_def half_done_job_eq run_defs)

section \<open>The claims\<close>

subsection \<open>Page ranges\<close>

text \<open>
  Claim C1, as stated, fails on \<^verbatim>\<open>validatePageRange\<close>: the string \<^verbatim>\<open>"1 - 5"\<close> does not
  match the grammar and is neither \<^verbatim>\<open>"odd"\<close> nor \<^verbatim>\<open>"even"\<close>, yet it is accepted,
  because white space is deleted before the pattern is tested.
\<close>

theorem validatePageRange_accepts_spaced_range:
  "validatePageRange ''1 - 5'' \<and>
   \<not> (''1 - 5'' \<in> lang page_range_grammar \<or> ''1 - 5'' = ''odd'' \<or> ''1 - 5'' = ''even'')"
proof -
  have "validatePageRange ''1 - 5''"
    by (simp add: validatePageRange_def replace_ws_def pattern_def digits1_def opt_upper_def)
  moreover have "\<not> test page_range_grammar ''1 - 5''"
    by (simp add: page_range_grammar_def)
  ultimately show ?thesis by (simp add: test_iff_lang)
qed

text \<open>
  Claim C1, amended. The check of \<^verbatim>\<open>printDocument\<close> accepts a non-empty page-range
  string exactly when it matches the grammar or is \<^verbatim>\<open>"odd"\<close> or \<^verbatim>\<open>"even"\<close>, and a
  rejected string leaves the dashboard unchanged: no job is created or sent; a null or
  empty page range passes unchecked. \<^verbatim>\<open>validatePageRange\<close> accepts a string exactly when the string without its white space
  matches the grammar; so it accepts every string that matches the grammar.
\<close>

theorem page_range_checks_accept:
  "(s \<noteq> [] \<longrightarrow>
      (page_range_check (Some s) \<longleftrightarrow>
         s \<in> lang page_range_grammar \<or> s = ''odd'' \<or> s = ''even''))
   \<and> page_range_check None \<and> page_range_check (Some [])
   \<and> (\<not> page_range_check (Some s) \<longrightarrow> printDocument name (Some s) sent d = d)
   \<and> (validatePageRange s \<longleftrightarrow> replace_ws s \<in> lang page_range_grammar)
   \<and> (s \<in> lang page_range_grammar \<longrightarrow> validatePageRange s)"
proof (intro conjI impI)
  show "page_range_check None" "page_range_check (Some [])"
    by (simp_all add: page_range_check_def)
next
  assume "s \<noteq> []"
  then show "page_range_check (Some s) \<longleftrightarrow>
      s \<in> lang page_range_grammar \<or> s = ''odd'' \<or> s = ''even''"
    by (auto simp: page_range_check_def test_iff_lang grammar_eq)
next
  assume "\<not> page_range_check (Some s)"
  then show "printDocument name (Some s) sent d = d" by (rule printDocument_refused)
next
  show "validatePageRange s \<longleftrightarrow> replace_ws s \<in> lang page_range_grammar"
    by (rule validate_iff_grammar)
next
  assume "s \<in> lang page_range_grammar"
  then show "validatePageRange s" by (rule grammar_imp_validate)
qed

text \<open>
  The amended claim C1 at \<^verbatim>\<open>"1-5, 8"\<close>, which matches the grammar and passes both
  checks, and at \<^verbatim>\<open>"abc"\<close>, which \<^verbatim>\<open>printDocument\<close> refuses without touching the
  dashboard.
\<close>

theorem page_range_checks_accept_witness:
  "''1-5, 8'' \<noteq> [] \<and> ''1-5, 8'' \<in> lang page_range_grammar
   \<and> page_range_check (Some ''1-5, 8'') \<and> validatePageRange ''1-5, 8''
   \<and> ''abc'' \<noteq> [] \<and> \<not> page_range_check (Some ''abc'')
   \<and> printDocument ''a.pdf'' (Some ''abc'') True (init None) = init None"
proof -
  have "test page_range_grammar ''1-5, 8''"
    by (simp add: page_range_grammar_def)
  then have g: "''1-5, 8'' \<in> lang page_range_grammar"
    by (simp only: test_iff_lang)
  have n: "\<not> page_range_check (Some ''abc'')"
    by (simp add: page_range_check_def pageRangePattern_def digits1_def opt_upper_def)
  show ?thesis
    using g n page_range_checks_accept[of "''1-5, 8''" "''a.pdf''" True "init None"]
      page_range_checks_accept[of "''abc''" "''a.pdf''" True "init None"]
    by blast
qed

text \<open>
  Claim C8, as stated, fails: the tokens \<^verbatim>\<open>"5-1"\<close> (first greater than second) and
  \<^verbatim>\<open>"0-3"\<close> (an endpoint that is not positive) pass both checks.
\<close>

theorem reversed_range_accepted:
  "validatePageRange ''5-1'' \<and> page_range_check (Some ''5-1'')
   \<and> validatePageRange ''0-3'' \<and> page_range_check (Some ''0-3'')"
  by (simp add: validatePageRange_def replace_ws_def pattern_def page_range_check_def
      pageRangePattern_def digits1_def opt_upper_def)

text \<open>
  Claim C8, amended. A token made of two non-empty runs of decimal digits separated by
  a hyphen passes both checks whatever the two numbers are: the checks are on the form
  of the string only.
\<close>

theorem hyphen_token_accepted:
  assumes "a \<noteq> []" "list_all (in_class Digit) a" "b \<noteq> []" "list_all (in_class Digit) b"
  shows "validatePageRange (a @ ''-'' @ b) \<and> page_range_check (Some (a @ ''-'' @ b))"
proof -
  have p: "a @ ''-'' @ b \<in> lang pattern" using assms by (rule range_token_in)
  then have "validatePageRange (a @ ''-'' @ b)"
    using assms(2,4) by (simp only: validatePageRange_def range_token_keep test_iff_lang)
  moreover have "test pageRangePattern (a @ ''-'' @ b)"
    using p pattern_sub by (auto simp: test_iff_lang)
  then have "page_range_check (Some (a @ ''-'' @ b))"
    by (simp add: page_range_check_def)
  ultimately show ?thesis by simp
qed

text \<open>The amended claim C8 at the token \<^verbatim>\<open>"12-7"\<close>.\<close>

theorem hyphen_token_accepted_witness:
  "''12'' \<noteq> [] \<and> list_all (in_class Digit) ''12'' \<and> ''7'' \<noteq> [] \<and> list_all (in_class Digit) ''7''
   \<and> validatePageRange ''12-7'' \<and> page_range_check (Some ''12-7'')"
proof -
  have h: "''12'' \<noteq> []" "list_all (in_class Digit) ''12''" "''7'' \<noteq> []"
    "list_all (in_class Digit) ''7''"
    by simp_all
  show ?thesis using h hyphen_token_accepted[OF h] by simp
qed

text \<open>
  Claim C10. \<^verbatim>\<open>validatePageRange\<close> gives the same answer on a string and on the string
  with every white-space code unit deleted; a string is accepted whenever its form
  without white space matches the pattern of \<^verbatim>\<open>validatePageRange\<close>, or the grammar.
\<close>

theorem validatePageRange_ignores_whitespace:
  "validatePageRange s = validatePageRange (replace_ws s)
   \<and> (replace_ws s \<in> lang pattern \<longrightarrow> validatePageRange s)
   \<and> (replace_ws s \<in> lang page_range_grammar \<longrightarrow> validatePageRange s)"
proof (intro conjI impI)
  show "validatePageRange s = validatePageRange (replace_ws s)"
    by (simp add: validatePageRange_def replace_ws_idem)
next
  assume "replace_ws s \<in> lang pattern"
  then show "validatePageRange s" by (simp add: validatePageRange_def test_iff_lang)
next
  assume "replace_ws s \<in> lang page_range_grammar"
  then show "validatePageRange s" by (simp add: validate_iff_grammar)
qed

text \<open>Claim C10 at \<^verbatim>\<open>"1 - 5"\<close>, whose form without white space is \<^verbatim>\<open>"1-5"\<close>.\<close>

theorem validatePageRange_ignores_whitespace_witness:
  "replace_ws ''1 - 5'' = ''1-5'' \<and> ''1-5'' \<in> lang pattern \<and> ''1-5'' \<in> lang page_range_grammar
   \<and> validatePageRange ''1 - 5'' \<and> validatePageRange ''1-5''"
proof -
  have r: "replace_ws ''1 - 5'' = ''1-5''" by (simp add: replace_ws_def)
  have "test pattern ''1-5''"
    by (simp add: pattern_def digits1_def opt_upper_def)
  then have p: "''1-5'' \<in> lang pattern"
    by (simp only: test_iff_lang)
  have "test page_range_grammar ''1-5''"
    by (simp add: page_range_grammar_def)
  then have g: "''1-5'' \<in> lang page_range_grammar"
    by (simp only: test_iff_lang)
  show ?thesis
    using r p g validatePageRange_ignores_whitespace[of "''1 - 5''"] by metis
qed

subsection \<open>Progress of a job\<close>

text \<open>
  Claim C2, as stated, fails. After two ticks that find no queue entry the job is
  printing at 30 percent; a tick that finds the entry of the job with 1 page of 10
  printed writes 10 percent, and the job is still printing.
\<close>

theorem progress_decreases_on_matched_tick:
  "status (objects half_done_job 0) = Printing
   \<and> status (objects (run id [Tick 0, Response 0 (HttpOk busy_printer) 0] half_done_job) 0)
       = Printing
   \<and> progress (objects (run id [Tick 0, Response 0 (HttpOk busy_printer) 0] half_done_job) 0)
       < progress (objects half_done_job 0)"
  by (simp add: half_done_job_eq run_defs)

text \<open>
  Claim C2, amended. In a dashboard reached by a run from an initial state (or in any
  dashboard where the progress of the job is a double of at most 100), the progress of
  a job does not decrease when a monitor callback finds no queue entry for the job, nor
  when it cannot reach the status provider and falls back to the estimate; this holds
  for the part of the callback after its suspension and for the whole callback.
\<close>

theorem progress_nondecreasing_unmatched_tick:
  assumes "rounding fl"
    and "d = run fl es (init saved) \<or>
         progress (objects d r) \<le> 100 \<and> fl (progress (objects d r)) = progress (objects d r)"
    and "0 \<le> rnd"
    and "case resp of
           HttpOk printerStatus \<Rightarrow> currentJob printerStatus (objects d r) = None
         | _ \<Rightarrow> True"
  shows "progress (objects d r) \<le> progress (objects (tick_resume fl r resp rnd d) r)
       \<and> progress (objects d r)
            \<le> progress (objects (monitorJobProgress_tick fl r resp rnd d) r)"
proof -
  let ?p = "progress (objects d r)"
  from assms(2) have b: "?p \<le> 100" and f: "fl ?p = ?p"
    using reachable_progress[OF assms(1), of es saved r] by auto
  have "?p \<le> ?p + 15" by simp
  then have "fl ?p \<le> fl (?p + 15)" by (rule rounding_mono[OF assms(1)])
  with f have s: "?p \<le> fl (?p + 15)" by simp
  note e = fallback_estimate_lower[OF assms(1,3) f]
  have t: "?p \<le> progress (objects (tick_resume fl r resp rnd d) r)"
  proof (cases resp)
    case (HttpOk ps)
    with assms(4) b s show ?thesis
      by (auto simp: tick_resume_def Let_def objs)
  next
    case NetworkError
    with b e show ?thesis by (simp add: resume_fallback(1))
  next
    case HttpError
    with b e show ?thesis by (simp add: resume_fallback(1))
  qed
  then show ?thesis
    by (simp add: monitorJobProgress_tick_def Let_def objs)
qed

text \<open>The amended claim C2 on a job at 30 percent and a printer with an empty queue.\<close>

theorem progress_nondecreasing_unmatched_tick_witness:
  "rounding id
   \<and> half_done_job
       = run id [Print ''a.pdf'' None, Sent 0 True, Tick 0, Response 0 (HttpOk idle_printer) 0,
                 Tick 0, Response 0 (HttpOk idle_printer) 0] (init None)
   \<and> (0::rat) \<le> 0
   \<and> currentJob idle_printer (objects half_done_job 0) = None
   \<and> progress (objects half_done_job 0)
        \<le> progress (objects (tick_resume id 0 (HttpOk idle_printer) 0 half_done_job) 0)"
proof -
  have h: "half_done_job
       = run id [Print ''a.pdf'' None, Sent 0 True, Tick 0, Response 0 (HttpOk idle_printer) 0,
              Tick 0, Response 0 (HttpOk idle_printer) 0] (init None)
     \<or> progress (objects half_done_job 0) \<le> 100
       \<and> id (progress (objects half_done_job 0)) = progress (objects half_done_job 0)"
    "(0::rat) \<le> 0"
    "case HttpOk idle_printer of
       HttpOk printerStatus \<Rightarrow> currentJob printerStatus (objects half_done_job 0) = None
     | _ \<Rightarrow> True"
    by (simp_all add: half_done_job_eq currentJob_def idle_printer_def)
  show ?thesis
    using rounding_id half_done_job_run h(2,3)
      progress_nondecreasing_unmatched_tick[OF rounding_id h]
    by simp
qed

text \<open>
  Claim C5. When a monitor callback receives an answer and finds a queue entry for the
  job whose total page count is positive, the new progress is
  \<^verbatim>\<open>Math.min(95, (pages_printed / total_pages) * 100)\<close>, hence at most 95; with the
  rounding that changes nothing this is \<open>min 95 (pages_printed / total_pages * 100)\<close>.
  This holds for the part of the callback after its suspension and, when the job passes
  the status test, for the whole callback.
\<close>

theorem matched_tick_progress:
  assumes "currentJob printerStatus (objects d r) = Some cur"
    and "total_pages cur > 0"
  shows "progress (objects (tick_resume fl r (HttpOk printerStatus) rnd d) r)
           = min 95 (fl (fl (pages_printed cur / total_pages cur) * 100))
       \<and> progress (objects (tick_resume fl r (HttpOk printerStatus) rnd d) r) \<le> 95
       \<and> (status (objects d r) \<noteq> Error \<and> status (objects d r) \<noteq> Cancelled \<longrightarrow>
            progress (objects (monitorJobProgress_tick fl r (HttpOk printerStatus) rnd d) r)
              = min 95 (fl (fl (pages_printed cur / total_pages cur) * 100)) \<and>
            progress (objects (monitorJobProgress_tick fl r (HttpOk printerStatus) rnd d) r)
              \<le> 95)
       \<and> progress (objects (tick_resume id r (HttpOk printerStatus) rnd d) r)
           = min 95 (pages_printed cur / total_pages cur * 100)"
  using assms by (simp add: monitorJobProgress_tick_def tick_resume_def Let_def objs)

text \<open>Claim C5 on a fresh printing job with 1 page of 10 printed: 10 percent.\<close>

theorem matched_tick_progress_witness:
  "status (objects printing_job 0) \<noteq> Error \<and> status (objects printing_job 0) \<noteq> Cancelled
   \<and> currentJob busy_printer (objects printing_job 0)
       = Some \<lparr>document = Some ''a.pdf'', pages_printed = 1, total_pages = 10\<rparr>
   \<and> progress (objects (tick_resume id 0 (HttpOk busy_printer) 0 printing_job) 0) = 10
   \<and> progress (objects (monitorJobProgress_tick id 0 (HttpOk busy_printer) 0 printing_job) 0)
       = 10"
proof -
  have s: "status (objects printing_job 0) \<noteq> Error" "status (objects printing_job 0) \<noteq> Cancelled"
    by (simp_all add: printing_job_eq)
  have h: "currentJob busy_printer (objects printing_job 0)
       = Some \<lparr>document = Some ''a.pdf'', pages_printed = 1, total_pages = 10\<rparr>"
    "total_pages \<lparr>document = Some ''a.pdf'', pages_printed = 1, total_pages = 10\<rparr> > 0"
    by (simp_all add: printing_job_eq currentJob_def busy_printer_def)
  show ?thesis using s h matched_tick_progress[OF h, where fl = id and rnd = 0] by simp
qed

subsection \<open>Failures seen by the monitor\<close>




text \<open>
  Claim C7, as stated, fails in its last part. A printing job at 95 percent whose
  callback cannot reach the status provider is marked completed and its interval is
  cleared: polling does not continue. (Here the estimate is 5 and the sum is exactly
  100, in doubles as well.)
\<close>

theorem fallback_completes_job:
  "status (objects nearly_done_job 0) = Printing \<and> 0 \<in> intervals nearly_done_job
   \<and> status (objects (run id [Tick 0, Response 0 NetworkError 0] nearly_done_job) 0)
       = Completed
   \<and> 0 \<notin> intervals (run id [Tick 0, Response 0 NetworkError 0] nearly_done_job)"
  by (simp add: nearly_done_job_eq run_defs)

text \<open>
  Claim C7, amended. A monitor callback that cannot reach the status provider never
  sets the status \<^verbatim>\<open>'error'\<close>, has no error result and leaves the error text of the job
  alone. It computes \<^verbatim>\<open>job.progress + (Math.random() * 10 + 5)\<close> in doubles. While this
  computed sum is below 100 it becomes the progress, the status is unchanged and the
  interval stays installed, so polling continues; once the computed sum is 100 or more
  the progress is set to 100, the job is marked completed and the interval is cleared.
  The computed sum is not below the old progress, and lies between the rounded values of
  the old progress plus 5 and plus 15.
\<close>

theorem fallback_tick_effect:
  assumes "resp = NetworkError \<or> resp = HttpError"
  shows "error (objects (tick_resume fl r resp rnd d) r) = error (objects d r)
       \<and> (status (objects d r) \<noteq> Error \<longrightarrow>
            status (objects (tick_resume fl r resp rnd d) r) \<noteq> Error)
       \<and> (fallback_estimate fl (progress (objects d r)) rnd < 100 \<longrightarrow>
            progress (objects (tick_resume fl r resp rnd d) r)
              = fallback_estimate fl (progress (objects d r)) rnd \<and>
            status (objects (tick_resume fl r resp rnd d) r) = status (objects d r) \<and>
            (r \<in> intervals (tick_resume fl r resp rnd d) \<longleftrightarrow> r \<in> intervals d))
       \<and> (fallback_estimate fl (progress (objects d r)) rnd \<ge> 100 \<longrightarrow>
            progress (objects (tick_resume fl r resp rnd d) r) = 100 \<and>
            status (objects (tick_resume fl r resp rnd d) r) = Completed \<and>
            r \<notin> intervals (tick_resume fl r resp rnd d))
       \<and> (rounding fl \<and> 0 \<le> rnd \<and> rnd < 1
            \<and> fl (progress (objects d r)) = progress (objects d r) \<longrightarrow>
            progress (objects d r) \<le> fallback_estimate fl (progress (objects d r)) rnd \<and>
            fl (progress (objects d r) + 5)
              \<le> fallback_estimate fl (progress (objects d r)) rnd \<and>
            fallback_estimate fl (progress (objects d r)) rnd
              \<le> fl (progress (objects d r) + 15))
       \<and> fallback_estimate fl (progress (objects d r)) rnd
            = fl (progress (objects d r) + fl (fl (rnd * 10) + 5))"
  using fallback_estimate_bounds[of fl rnd "progress (objects d r)"]
  unfolding resume_fallback[OF assms]
  by (auto simp: fallback_estimate_def)

text \<open>
  The amended claim C7. With exact sums and the random number one half, a job at 30
  percent goes to 40 and keeps its monitor, and a job at 95 percent is completed and
  loses it. With sums rounded to the nearest quarter and the random number 0.49, a job
  at 90 percent is completed, because the rounded sum is 100 where the exact sum is
  99.9.
\<close>

theorem fallback_tick_effect_witness:
  "rounding id \<and> (0::rat) \<le> 1/2 \<and> (1/2::rat) < 1
   \<and> fallback_estimate id (progress (objects half_done_job 0)) (1/2) = 40
   \<and> status (objects (tick_resume id 0 NetworkError (1/2) half_done_job) 0) = Printing
   \<and> progress (objects (tick_resume id 0 NetworkError (1/2) half_done_job) 0) = 40
   \<and> 0 \<in> intervals (tick_resume id 0 NetworkError (1/2) half_done_job)
   \<and> fallback_estimate id (progress (objects nearly_done_job 0)) (1/2) \<ge> 100
   \<and> status (objects (tick_resume id 0 HttpError (1/2) nearly_done_job) 0) = Completed
   \<and> 0 \<notin> intervals (tick_resume id 0 HttpError (1/2) nearly_done_job)
   \<and> rounding quarter
   \<and> fallback_estimate quarter (progress (objects ninety_job 0)) (49/100) = 100
   \<and> status (objects (tick_resume quarter 0 NetworkError (49/100) ninety_job) 0) = Completed
   \<and> 0 \<notin> intervals (tick_resume quarter 0 NetworkError (49/100) ninety_job)"
proof -
  have h: "NetworkError = NetworkError \<or> NetworkError = HttpError"
    and k: "HttpError = NetworkError \<or> HttpError = HttpError"
    by simp_all
  have v: "progress (objects half_done_job 0) = 30" "status (objects half_done_job 0) = Printing"
    "0 \<in> intervals half_done_job" "progress (objects nearly_done_job 0) = 95"
    "progress (objects ninety_job 0) = 90"
    by (simp_all add: half_done_job_eq nearly_done_job_eq ninety_job_eq)
  have e: "fallback_estimate id 30 (1/2) = 40" "fallback_estimate id 95 (1/2) = 105"
    by (simp_all add: fallback_estimate_id)
  show ?thesis
    using rounding_id rounding_quarter v e quarter_estimate
      fallback_tick_effect[OF h, of id 0 "1/2" half_done_job]
      fallback_tick_effect[OF k, of id 0 "1/2" nearly_done_job]
      fallback_tick_effect[OF h, of quarter 0 "49/100" ninety_job]
    by simp
qed

subsection \<open>Cancelling\<close>

text \<open>
  Claim C3, as stated, fails. A job whose print request was refused has the terminal
  status \<^verbatim>\<open>'error'\<close> and stays in the queue; \<^verbatim>\<open>cancelJob\<close> on it changes its status.
\<close>

theorem cancelJob_transitions_failed_job:
  "terminal (status (objects failed_job 0))
   \<and> status (objects (cancelJob 1 failed_job) 0) \<noteq> status (objects failed_job 0)"
  by (simp add: failed_job_eq terminal_def run_defs)

text \<open>
  Claim C3, amended. \<^verbatim>\<open>cancelJob\<close> on a job that is in a terminal state and still in
  the queue sets its status to \<^verbatim>\<open>'cancelled'\<close> and its progress to 0 and leaves its
  error text unchanged; on a job id that is not in the queue it changes nothing. In
  both cases nothing is reported to the caller: the operation has no error result.
\<close>

theorem cancelJob_terminal_job:
  "(find (\<lambda>j. job_id (objects d j) = jobId) (jobQueue d) = Some r
      \<and> terminal (status (objects d r)) \<longrightarrow>
      status (objects (cancelJob jobId d) r) = Cancelled \<and>
      progress (objects (cancelJob jobId d) r) = 0 \<and>
      error (objects (cancelJob jobId d) r) = error (objects d r))
   \<and> (find (\<lambda>j. job_id (objects d j) = jobId) (jobQueue d) = None \<longrightarrow> cancelJob jobId d = d)"
  by (auto simp: cancelJob_found cancelJob_absent)

text \<open>The amended claim C3 on the failed job (id 1) and on the id 7 that no job has.\<close>

theorem cancelJob_terminal_job_witness:
  "find (\<lambda>j. job_id (objects failed_job j) = 1) (jobQueue failed_job) = Some 0
   \<and> terminal (status (objects failed_job 0))
   \<and> status (objects (cancelJob 1 failed_job) 0) = Cancelled
   \<and> progress (objects (cancelJob 1 failed_job) 0) = 0
   \<and> error (objects (cancelJob 1 failed_job) 0) = None
   \<and> find (\<lambda>j. job_id (objects failed_job j) = 7) (jobQueue failed_job) = None
   \<and> cancelJob 7 failed_job = failed_job"
proof -
  have h: "find (\<lambda>j. job_id (objects failed_job j) = 1) (jobQueue failed_job) = Some 0"
    "terminal (status (objects failed_job 0))"
    "find (\<lambda>j. job_id (objects failed_job j) = 7) (jobQueue failed_job) = None"
    "error (objects failed_job 0) = None"
    by (simp_all add: failed_job_eq terminal_def)
  show ?thesis
    using h cancelJob_terminal_job[of failed_job 1 0] cancelJob_terminal_job[of failed_job 7 0]
    by simp
qed

text \<open>
  Claim C9. For a job in the queue, the ids of the queued jobs being distinct,
  \<^verbatim>\<open>cancelJob\<close> with the id of the job sets its status to \<^verbatim>\<open>'cancelled'\<close> and its
  progress to 0, whatever they were; with an id that no queued job has, \<^verbatim>\<open>cancelJob\<close>
  leaves the dashboard as it is. The ids of the queued jobs are distinct after every run
  from an initial state.
\<close>

theorem cancelJob_queued_job:
  "(r \<in> set (jobQueue d) \<and> distinct (map (\<lambda>j. job_id (objects d j)) (jobQueue d)) \<longrightarrow>
      status (objects (cancelJob (job_id (objects d r)) d) r) = Cancelled \<and>
      progress (objects (cancelJob (job_id (objects d r)) d) r) = 0)
   \<and> (jobId \<notin> set (map (\<lambda>j. job_id (objects d j)) (jobQueue d)) \<longrightarrow> cancelJob jobId d = d)
   \<and> distinct (map (\<lambda>j. job_id (objects (run fl es (init saved)) j))
        (jobQueue (run fl es (init saved))))"
proof (intro conjI impI)
  show "distinct (map (\<lambda>j. job_id (objects (run fl es (init saved)) j))
        (jobQueue (run fl es (init saved))))"
    by (rule reachable_ids_distinct)
next
  assume a: "r \<in> set (jobQueue d) \<and> distinct (map (\<lambda>j. job_id (objects d j)) (jobQueue d))"
  then have f: "find (\<lambda>j. job_id (objects d j) = job_id (objects d r)) (jobQueue d) = Some r"
    using find_distinct[of "\<lambda>j. job_id (objects d j)" "jobQueue d" r] by simp
  show "status (objects (cancelJob (job_id (objects d r)) d) r) = Cancelled"
    by (simp add: cancelJob_found[OF f])
  show "progress (objects (cancelJob (job_id (objects d r)) d) r) = 0"
    by (simp add: cancelJob_found[OF f])
next
  assume "jobId \<notin> set (map (\<lambda>j. job_id (objects d j)) (jobQueue d))"
  then have "find (\<lambda>j. job_id (objects d j) = jobId) (jobQueue d) = None"
    by (auto simp: find_None_iff)
  then show "cancelJob jobId d = d" by (rule cancelJob_absent)
qed

text \<open>Claim C9 on a fresh printing job (id 1) and on the id 7 that no job has.\<close>

theorem cancelJob_queued_job_witness:
  "0 \<in> set (jobQueue printing_job)
   \<and> distinct (map (\<lambda>j. job_id (objects printing_job j)) (jobQueue printing_job))
   \<and> job_id (objects printing_job 0) = 1
   \<and> status (objects (cancelJob 1 printing_job) 0) = Cancelled
   \<and> progress (objects (cancelJob 1 printing_job) 0) = 0
   \<and> 7 \<notin> set (map (\<lambda>j. job_id (objects printing_job j)) (jobQueue printing_job))
   \<and> cancelJob 7 printing_job = printing_job"
proof -
  have h: "0 \<in> set (jobQueue printing_job)"
    "distinct (map (\<lambda>j. job_id (objects printing_job j)) (jobQueue printing_job))"
    "job_id (objects printing_job 0) = 1"
    "7 \<notin> set (map (\<lambda>j. job_id (objects printing_job j)) (jobQueue printing_job))"
    by (simp_all add: printing_job_eq)
  show ?thesis
    using h cancelJob_queued_job[where r = 0 and d = printing_job and jobId = 7 and fl = id
        and es = "[]" and saved = None]
    by simp
qed

subsection \<open>The history\<close>




end
